theory Spec2Isabelle
  imports Complex_Main
begin

text \<open>
  A shallow embedding of the core of svg-canvas-mcp (identifier generator,
  element model, document manager, history manager, layer manager) and the
  properties proved of it. Numbers are reals or integers; module-level and
  instance state is passed in and returned; a method that may throw returns a
  sum, and one that may not return an option.
\<close>

text \<open>
  The one exception that the modelled code raises by itself: a \<open>TypeError\<close>,
  at a property read or an iteration of \<open>undefined\<close>.
\<close>

datatype js_error = TypeError

section \<open>Identifier generator (src/core/id-generator.ts)\<close>

text \<open>
  The module keeps one process-wide table \<open>counters: Record<string, number>\<close>.
  It is passed explicitly: every function that reads or writes the table takes it
  and returns the new one. A missing key reads as \<open>undefined\<close> (\<open>None\<close>).
  \<open>setCounter\<close> and \<open>syncCounterFromId\<close>, which store a number read from
  elsewhere, are not part of the model.

  A counter is a double that holds an integer; here it is that integer. Every
  integer between \<open>-2^53\<close> and \<open>2^53\<close> (9007199254740992) is a double, and
  a template literal prints all its digits. The values that \<open>generateId\<close>
  reaches from an empty table stay in that range, and the model follows the code
  on it; it does not describe the code on a table that holds a larger value.
\<close>

type_synonym Counters = "string \<rightharpoonup> int"

text \<open>
  Template literals print a number in decimal: \<open>string_of_nat\<close> and
  \<open>string_of_int\<close> are that rendering for integers.
\<close>

definition digit_char :: "nat \<Rightarrow> char" where
  "digit_char d = ''0123456789'' ! (d mod 10)"

fun string_of_nat :: "nat \<Rightarrow> string" where
  "string_of_nat n =
     (if n < 10 then [digit_char n] else string_of_nat (n div 10) @ [digit_char (n mod 10)])"

definition string_of_int :: "int \<Rightarrow> string" where
  "string_of_int i = (if i < 0 then CHR ''-'' # string_of_nat (nat (- i)) else string_of_nat (nat i))"

text \<open>The truthiness test \<open>!counters[prefix]\<close>: true for a missing key and for 0.\<close>

definition counter_falsy :: "Counters \<Rightarrow> string \<Rightarrow> bool" where
  "counter_falsy counters prefix = (case counters prefix of None \<Rightarrow> True | Some v \<Rightarrow> v = 0)"

definition counter_value :: "Counters \<Rightarrow> string \<Rightarrow> int" where
  "counter_value counters prefix = (case counters prefix of None \<Rightarrow> 0 | Some v \<Rightarrow> v)"

text \<open>
  \<open>counters[prefix]++\<close>: one more, as long as the sum is a double. The sum
  \<open>2^53 + 1\<close> is none and rounds to \<open>2^53\<close>: there the counter stays.
\<close>

definition js_increment :: "int \<Rightarrow> int" where
  "js_increment v = (if v < 9007199254740992 then v + 1 else v)"

definition generateId :: "string \<Rightarrow> Counters \<Rightarrow> string \<times> Counters" where
  "generateId prefix counters =
     (let c0 = (if counter_falsy counters prefix then counters(prefix \<mapsto> 0) else counters);
          n = js_increment (counter_value c0 prefix);
          c1 = c0(prefix \<mapsto> n)
      in (prefix @ ''-'' @ string_of_int n, c1))"

text \<open>
  \<open>generateUUID\<close> calls \<open>uuidv4()\<close>; the random value it draws is the
  argument \<open>uuid\<close>. An empty prefix is falsy, as a missing one.
\<close>

definition generateUUID :: "string option \<Rightarrow> string \<Rightarrow> string" where
  "generateUUID prefix uuid =
     (case prefix of
        None \<Rightarrow> uuid
      | Some p \<Rightarrow> if p = [] then uuid else p @ ''-'' @ uuid)"

definition resetCounters :: "Counters \<Rightarrow> Counters" where
  "resetCounters counters = Map.empty"

section \<open>Element model (types/svg.ts in src/unnamed/part_004, src/core/element.ts)\<close>

type_synonym Color = string

type_synonym Point = "real \<times> real"

datatype StringOrNumber = Str string | Num real

text \<open>
  \<open>SVGElementAttributes\<close>: the attributes every element variant carries. The
  fields are \<open>id\<close>, \<open>class\<close>, \<open>style\<close>, \<open>fill\<close>, \<open>stroke\<close>,
  \<open>strokeWidth\<close>, \<open>opacity\<close>, \<open>transform\<close>, \<open>clipPath\<close>, \<open>mask\<close>,
  \<open>filter\<close>, \<open>ariaLabel\<close>, \<open>ariaHidden\<close>, \<open>role\<close>, each with the prefix
  \<open>attr_\<close>. A field that is missing or \<open>undefined\<close> is \<open>None\<close>. The interface
  requires \<open>id\<close>, but \<open>Partial<SVGElement>\<close> admits \<open>{ id: undefined }\<close> and
  \<open>Object.assign\<close> writes it, so \<open>id\<close> is optional in the object that is stored.
\<close>

record SVGElementAttributes =
  attr_id :: "string option"
  attr_class :: "string option"
  attr_style :: "string option"
  attr_fill :: "Color option"
  attr_stroke :: "Color option"
  attr_strokeWidth :: "real option"
  attr_opacity :: "real option"
  attr_transform :: "string option"
  attr_clipPath :: "string option"
  attr_mask :: "string option"
  attr_filter :: "string option"
  attr_ariaLabel :: "string option"
  attr_ariaHidden :: "bool option"
  attr_role :: "string option"

text \<open>The twelve values of the discriminant \<open>type\<close>.\<close>

datatype ElementType =
    TypeRect | TypeCircle | TypeEllipse | TypeLine | TypePolyline | TypePolygon | TypePath
  | TypeText | TypeTextPath | TypeImage | TypeG | TypeUse

text \<open>
  The keys that the variants declare besides the shared attributes, \<open>type\<close> and
  \<open>children\<close>, and the values they hold: a number, a string (the literal types
  of \<open>textAnchor\<close> are strings), or the point list of a polyline or polygon.
\<close>

datatype Key =
    K_x | K_y | K_width | K_height | K_rx | K_ry | K_cx | K_cy | K_r
  | K_x1 | K_y1 | K_x2 | K_y2 | K_points | K_d | K_text
  | K_fontFamily | K_fontSize | K_fontWeight | K_fontStyle | K_textAnchor | K_dominantBaseline
  | K_letterSpacing | K_wordSpacing | K_textDecoration
  | K_pathId | K_startOffset | K_href | K_preserveAspectRatio

datatype Value = VNum real | VStr string | VPoints "Point list"

text \<open>
  \<open>SVGElement\<close> is a union of twelve object types. The spread
  \<open>{ ...element, ...updates }\<close> and \<open>Object.assign(element, updates)\<close> take
  any \<open>Partial<SVGElement>\<close>, so they also build objects outside the twelve
  shapes: a rectangle whose \<open>type\<close> has become \<open>'g'\<close>, a group whose
  \<open>children\<close> is \<open>undefined\<close>. An element is therefore the object that exists
  at run time: its \<open>type\<close>, the shared attributes, a table from the other keys
  to their values, and \<open>children\<close>. A key that is absent or \<open>undefined\<close> is
  \<open>None\<close>. A \<open>children\<close> array holds the child objects themselves; the
  model holds their values, so it describes the trees in which no object is
  stored at two places.
\<close>

datatype SVGElement =
  SVGElement (element_type: "ElementType option") (attributes_of: SVGElementAttributes)
    (fields_of: "Key \<Rightarrow> Value option") (element_children: "SVGElement list option")

definition element_id :: "SVGElement \<Rightarrow> string option" where
  "element_id el = attr_id (attributes_of el)"

text \<open>
  The text of a \<open>type\<close> in a template literal or as a property key;
  \<open>undefined\<close> reads \<open>undefined\<close> there.
\<close>

fun type_name :: "ElementType option \<Rightarrow> string" where
  "type_name None = ''undefined''"
| "type_name (Some TypeRect) = ''rect''"
| "type_name (Some TypeCircle) = ''circle''"
| "type_name (Some TypeEllipse) = ''ellipse''"
| "type_name (Some TypeLine) = ''line''"
| "type_name (Some TypePolyline) = ''polyline''"
| "type_name (Some TypePolygon) = ''polygon''"
| "type_name (Some TypePath) = ''path''"
| "type_name (Some TypeText) = ''text''"
| "type_name (Some TypeTextPath) = ''textpath''"
| "type_name (Some TypeImage) = ''image''"
| "type_name (Some TypeG) = ''g''"
| "type_name (Some TypeUse) = ''use''"

text \<open>
  An object literal \<open>{ k1: v1, k2: v2, ... }\<close> of the other keys; a value that is
  \<open>undefined\<close> (\<open>rx: options.rx\<close> with no \<open>rx\<close> given) leaves the key
  \<open>None\<close>.
\<close>

definition own_fields :: "(Key \<times> Value option) list \<Rightarrow> Key \<Rightarrow> Value option" where
  "own_fields kvs k = (case map_of kvs k of None \<Rightarrow> None | Some v \<Rightarrow> v)"

text \<open>
  \<open>ElementOptions\<close> of the factories, with the two corner radii that
  \<open>createRect\<close> accepts besides (unused by the other factories).
\<close>

record ElementOptions =
  opt_id :: "string option"
  opt_class :: "string option"
  opt_fill :: "Color option"
  opt_stroke :: "Color option"
  opt_strokeWidth :: "real option"
  opt_opacity :: "real option"
  opt_transform :: "string option"
  opt_ariaLabel :: "string option"
  opt_rx :: "real option"
  opt_ry :: "real option"

definition no_options :: ElementOptions where
  "no_options = \<lparr>opt_id = None, opt_class = None, opt_fill = None, opt_stroke = None,
     opt_strokeWidth = None, opt_opacity = None, opt_transform = None, opt_ariaLabel = None,
     opt_rx = None, opt_ry = None\<rparr>"

text \<open>\<open>options.id || generateId(prefix)\<close>: an empty string is falsy.\<close>

definition id_or_generate :: "string option \<Rightarrow> string \<Rightarrow> Counters \<Rightarrow> string \<times> Counters" where
  "id_or_generate given prefix counters =
     (case given of
        None \<Rightarrow> generateId prefix counters
      | Some i \<Rightarrow> if i = [] then generateId prefix counters else (i, counters))"

text \<open>The attributes a factory writes: the ones it does not list stay absent.\<close>

definition factory_attributes :: "string \<Rightarrow> ElementOptions \<Rightarrow> SVGElementAttributes" where
  "factory_attributes i options =
     \<lparr>attr_id = Some i, attr_class = opt_class options, attr_style = None,
      attr_fill = opt_fill options, attr_stroke = opt_stroke options,
      attr_strokeWidth = opt_strokeWidth options, attr_opacity = opt_opacity options,
      attr_transform = opt_transform options, attr_clipPath = None, attr_mask = None,
      attr_filter = None, attr_ariaLabel = opt_ariaLabel options, attr_ariaHidden = None,
      attr_role = None\<rparr>"

definition createRect ::
  "real \<Rightarrow> real \<Rightarrow> real \<Rightarrow> real \<Rightarrow> ElementOptions \<Rightarrow> Counters \<Rightarrow> SVGElement \<times> Counters" where
  "createRect x y width height options counters =
     (let (i, c1) = id_or_generate (opt_id options) ''rect'' counters
      in (SVGElement (Some TypeRect) (factory_attributes i options)
            (own_fields [(K_x, Some (VNum x)), (K_y, Some (VNum y)), (K_width, Some (VNum width)),
                     (K_height, Some (VNum height)), (K_rx, map_option VNum (opt_rx options)),
                     (K_ry, map_option VNum (opt_ry options))])
            None, c1))"

definition createCircle ::
  "real \<Rightarrow> real \<Rightarrow> real \<Rightarrow> ElementOptions \<Rightarrow> Counters \<Rightarrow> SVGElement \<times> Counters" where
  "createCircle cx cy r options counters =
     (let (i, c1) = id_or_generate (opt_id options) ''circle'' counters
      in (SVGElement (Some TypeCircle) (factory_attributes i options)
            (own_fields [(K_cx, Some (VNum cx)), (K_cy, Some (VNum cy)), (K_r, Some (VNum r))])
            None, c1))"

definition createPath :: "string \<Rightarrow> ElementOptions \<Rightarrow> Counters \<Rightarrow> SVGElement \<times> Counters" where
  "createPath d options counters =
     (let (i, c1) = id_or_generate (opt_id options) ''path'' counters
      in (SVGElement (Some TypePath) (factory_attributes i options) (own_fields [(K_d, Some (VStr d))])
            None, c1))"

definition createGroup ::
  "SVGElement list \<Rightarrow> ElementOptions \<Rightarrow> Counters \<Rightarrow> SVGElement \<times> Counters" where
  "createGroup children options counters =
     (let (i, c1) = id_or_generate (opt_id options) ''group'' counters
      in (SVGElement (Some TypeG) (factory_attributes i options) (own_fields []) (Some children), c1))"

text \<open>
  \<open>cloneElement\<close>. \<open>JSON.parse(JSON.stringify(element))\<close> copies a value that
  holds only strings, numbers, booleans, arrays and objects, so the copy is the
  value itself. The clone's id is \<open>newId || generateId(type === 'g' ? 'group' : type)\<close>;
  then, if the type is \<open>'g'\<close>, every child is cloned in order with no \<open>newId\<close>,
  and \<open>clone.children.map\<close> throws a \<open>TypeError\<close> when there is no
  \<open>children\<close>; the counter that \<open>generateId\<close> has advanced stays advanced.
\<close>

definition clone_prefix :: "ElementType option \<Rightarrow> string" where
  "clone_prefix t = (if t = Some TypeG then ''group'' else type_name t)"

fun cloneElement :: "SVGElement \<Rightarrow> string option \<Rightarrow> Counters \<Rightarrow> (js_error + SVGElement) \<times> Counters"
  and cloneChildren :: "SVGElement list \<Rightarrow> Counters \<Rightarrow> (js_error + SVGElement list) \<times> Counters" where
  "cloneElement (SVGElement t a f ch) newId counters =
     (let (i, c1) = id_or_generate newId (clone_prefix t) counters
      in if t = Some TypeG then
           (case ch of
              None \<Rightarrow> (Inl TypeError, c1)
            | Some children \<Rightarrow>
                (case cloneChildren children c1 of
                   (Inl err, c2) \<Rightarrow> (Inl err, c2)
                 | (Inr cs, c2) \<Rightarrow> (Inr (SVGElement t (a\<lparr>attr_id := Some i\<rparr>) f (Some cs)), c2)))
         else (Inr (SVGElement t (a\<lparr>attr_id := Some i\<rparr>) f ch), c1))"
| "cloneChildren [] counters = (Inr [], counters)"
| "cloneChildren (child # rest) counters =
     (case cloneElement child None counters of
        (Inl err, c1) \<Rightarrow> (Inl err, c1)
      | (Inr c, c1) \<Rightarrow>
          (case cloneChildren rest c1 of
             (Inl err, c2) \<Rightarrow> (Inl err, c2)
           | (Inr cs, c2) \<Rightarrow> (Inr (c # cs), c2)))"

text \<open>
  \<open>Partial<T>\<close> of \<open>updateElement\<close>: every key of an element, optional. A key
  that is absent is \<open>None\<close>; a key that is present carries its value, which may
  be \<open>undefined\<close> (\<open>Some None\<close>, as in \<open>{ filter: undefined }\<close>). The calls in
  the repository pass \<open>fill\<close>, \<open>stroke\<close>, \<open>strokeWidth\<close>, \<open>style\<close>,
  \<open>opacity\<close>, \<open>filter\<close> and \<open>transform\<close>.
\<close>

record PartialAttributes =
  p_id :: "string option option"
  p_class :: "string option option"
  p_style :: "string option option"
  p_fill :: "Color option option"
  p_stroke :: "Color option option"
  p_strokeWidth :: "real option option"
  p_opacity :: "real option option"
  p_transform :: "string option option"
  p_clipPath :: "string option option"
  p_mask :: "string option option"
  p_filter :: "string option option"
  p_ariaLabel :: "string option option"
  p_ariaHidden :: "bool option option"
  p_role :: "string option option"

record PartialElement =
  p_type :: "ElementType option option"
  p_attributes :: PartialAttributes
  p_fields :: "Key \<Rightarrow> Value option option"
  p_children :: "SVGElement list option option"

definition no_changes :: PartialElement where
  "no_changes =
     \<lparr>p_type = None,
      p_attributes = \<lparr>p_id = None, p_class = None, p_style = None, p_fill = None, p_stroke = None,
        p_strokeWidth = None, p_opacity = None, p_transform = None, p_clipPath = None,
        p_mask = None, p_filter = None, p_ariaLabel = None, p_ariaHidden = None, p_role = None\<rparr>,
      p_fields = (\<lambda>k. None), p_children = None\<rparr>"

text \<open>One key of the spread \<open>{ ...element, ...updates }\<close>: the later source wins.\<close>

definition spread_key :: "'a \<Rightarrow> 'a option \<Rightarrow> 'a" where
  "spread_key old new = (case new of None \<Rightarrow> old | Some v \<Rightarrow> v)"

definition spread_attributes :: "SVGElementAttributes \<Rightarrow> PartialAttributes \<Rightarrow> SVGElementAttributes" where
  "spread_attributes a u =
     \<lparr>attr_id = spread_key (attr_id a) (p_id u),
      attr_class = spread_key (attr_class a) (p_class u),
      attr_style = spread_key (attr_style a) (p_style u),
      attr_fill = spread_key (attr_fill a) (p_fill u),
      attr_stroke = spread_key (attr_stroke a) (p_stroke u),
      attr_strokeWidth = spread_key (attr_strokeWidth a) (p_strokeWidth u),
      attr_opacity = spread_key (attr_opacity a) (p_opacity u),
      attr_transform = spread_key (attr_transform a) (p_transform u),
      attr_clipPath = spread_key (attr_clipPath a) (p_clipPath u),
      attr_mask = spread_key (attr_mask a) (p_mask u),
      attr_filter = spread_key (attr_filter a) (p_filter u),
      attr_ariaLabel = spread_key (attr_ariaLabel a) (p_ariaLabel u),
      attr_ariaHidden = spread_key (attr_ariaHidden a) (p_ariaHidden u),
      attr_role = spread_key (attr_role a) (p_role u)\<rparr>"

definition updateElement :: "SVGElement \<Rightarrow> PartialElement \<Rightarrow> SVGElement" where
  "updateElement element updates =
     SVGElement (spread_key (element_type element) (p_type updates))
       (spread_attributes (attributes_of element) (p_attributes updates))
       (\<lambda>k. spread_key (fields_of element k) (p_fields updates k))
       (spread_key (element_children element) (p_children updates))"

section \<open>Document manager (types/svg.ts in src/unnamed/part_004, src/core/document.ts)\<close>

record ViewBox =
  vb_minX :: real
  vb_minY :: real
  vb_width :: real
  vb_height :: real

record CanvasConfig =
  cfg_width :: real
  cfg_height :: real
  cfg_viewBox :: "ViewBox option"
  cfg_background :: "Color option"
  cfg_preserveAspectRatio :: "string option"

text \<open>
  The \<open>defs\<close> table. Gradient stop: \<open>offset color opacity?\<close>; linear gradient:
  \<open>id x1? y1? x2? y2? stops gradientUnits? spreadMethod?\<close>; radial gradient:
  \<open>id cx? cy? r? fx? fy? stops gradientUnits? spreadMethod?\<close>; pattern:
  \<open>id width height patternUnits? patternContentUnits? content\<close>; filter:
  \<open>id type params\<close>; symbol: \<open>id viewBox? content\<close>.
\<close>

datatype GradientStop = GradientStop real Color "real option"

datatype Units = UserSpaceOnUse | ObjectBoundingBox

datatype SpreadMethod = Pad | Reflect | Repeat

datatype Gradient =
    LinearGradient string "real option" "real option" "real option" "real option"
      "GradientStop list" "Units option" "SpreadMethod option"
  | RadialGradient string "real option" "real option" "real option" "real option" "real option"
      "GradientStop list" "Units option" "SpreadMethod option"

datatype Pattern = Pattern string real real "Units option" "Units option" string

datatype FilterType =
    Blur | Brightness | Contrast | DropShadow | Grayscale | HueRotate | Invert
  | OpacityFilter | Saturate | Sepia

datatype Filter = Filter string FilterType "(string \<times> StringOrNumber) list"

datatype Symbol = Symbol string "string option" "SVGElement list"

record Defs =
  gradients :: "Gradient list"
  patterns :: "Pattern list"
  filters :: "Filter list"
  symbols :: "Symbol list"
  clipPaths :: "SVGElement list"
  masks :: "SVGElement list"

record SVGDocument =
  doc_config :: CanvasConfig
  doc_defs :: Defs
  doc_elements :: "SVGElement list"

datatype DocumentEventType =
  ElementAdded | ElementRemoved | ElementUpdated | CanvasChanged | DefsChanged

record DocumentEvent =
  ev_type :: DocumentEventType
  ev_elementId :: "string option"

text \<open>
  The manager's private fields. The listeners are callbacks of the caller;
  \<open>emitted\<close> is the sequence of events that \<open>emit\<close> has handed to them.
\<close>

record SVGDocumentManager =
  document :: SVGDocument
  filePath :: "string option"
  isDirty :: bool
  rawDefs :: "string list"
  rawElements :: "string list"
  emitted :: "DocumentEvent list"

definition emit :: "DocumentEvent \<Rightarrow> SVGDocumentManager \<Rightarrow> SVGDocumentManager" where
  "emit event m = m\<lparr>emitted := emitted m @ [event]\<rparr>"

text \<open>
  \<open>Partial<CanvasConfig>\<close>: an absent key is \<open>None\<close>; a present optional key
  carries its value, which may be \<open>undefined\<close> (\<open>Some None\<close>).
\<close>

record PartialCanvasConfig =
  pc_width :: "real option"
  pc_height :: "real option"
  pc_viewBox :: "ViewBox option option"
  pc_background :: "Color option option"
  pc_preserveAspectRatio :: "string option option"

definition defaultConfig :: CanvasConfig where
  "defaultConfig =
     \<lparr>cfg_width = 800, cfg_height = 600,
      cfg_viewBox = Some \<lparr>vb_minX = 0, vb_minY = 0, vb_width = 800, vb_height = 600\<rparr>,
      cfg_background = None, cfg_preserveAspectRatio = None\<rparr>"

definition spread_config :: "CanvasConfig \<Rightarrow> PartialCanvasConfig option \<Rightarrow> CanvasConfig" where
  "spread_config d config =
     (case config of
        None \<Rightarrow> d
      | Some c \<Rightarrow>
          \<lparr>cfg_width = spread_key (cfg_width d) (pc_width c),
           cfg_height = spread_key (cfg_height d) (pc_height c),
           cfg_viewBox = spread_key (cfg_viewBox d) (pc_viewBox c),
           cfg_background = spread_key (cfg_background d) (pc_background c),
           cfg_preserveAspectRatio = spread_key (cfg_preserveAspectRatio d) (pc_preserveAspectRatio c)\<rparr>)"

definition emptyDefs :: Defs where
  "emptyDefs = \<lparr>gradients = [], patterns = [], filters = [], symbols = [], clipPaths = [], masks = []\<rparr>"

definition createEmptyDocument :: "PartialCanvasConfig option \<Rightarrow> Counters \<Rightarrow> SVGDocument \<times> Counters" where
  "createEmptyDocument config counters =
     (let c1 = resetCounters counters
      in (\<lparr>doc_config = spread_config defaultConfig config, doc_defs = emptyDefs, doc_elements = []\<rparr>, c1))"

definition new_SVGDocumentManager :: "PartialCanvasConfig option \<Rightarrow> Counters \<Rightarrow> SVGDocumentManager \<times> Counters" where
  "new_SVGDocumentManager config counters =
     (let (d, c1) = createEmptyDocument config counters
      in (\<lparr>document = d, filePath = None, isDirty = False, rawDefs = [], rawElements = [], emitted = []\<rparr>, c1))"

record CreateOptions =
  co_viewBox :: "string option"
  co_background :: "string option"
  co_preserveAspectRatio :: "string option"

definition no_create_options :: CreateOptions where
  "no_create_options = \<lparr>co_viewBox = None, co_background = None, co_preserveAspectRatio = None\<rparr>"

text \<open>
  \<open>create(width, height, options)\<close>. The function has no result and no check of its
  arguments. \<open>parseViewBox\<close> (utils/svg-parser.ts) converts text to numbers with
  \<open>Number\<close>; it is the parameter \<open>parseViewBox\<close> here, and \<open>create\<close> is
  modelled for every such parser.
\<close>

definition create ::
  "(string \<Rightarrow> ViewBox option) \<Rightarrow> real \<Rightarrow> real \<Rightarrow> CreateOptions \<Rightarrow> Counters \<Rightarrow> SVGDocumentManager
     \<Rightarrow> SVGDocumentManager \<times> Counters" where
  "create parseViewBox width height options counters m =
     (let viewBox =
            (case co_viewBox options of
               None \<Rightarrow> Some \<lparr>vb_minX = 0, vb_minY = 0, vb_width = width, vb_height = height\<rparr>
             | Some s \<Rightarrow>
                 if s = [] then Some \<lparr>vb_minX = 0, vb_minY = 0, vb_width = width, vb_height = height\<rparr>
                 else parseViewBox s);
          (d, c1) = createEmptyDocument
                      (Some \<lparr>pc_width = Some width, pc_height = Some height, pc_viewBox = Some viewBox,
                              pc_background = Some (co_background options),
                              pc_preserveAspectRatio = Some (co_preserveAspectRatio options)\<rparr>)
                      counters
      in (emit \<lparr>ev_type = CanvasChanged, ev_elementId = None\<rparr>
            (m\<lparr>document := d, filePath := None, isDirty := False\<rparr>), c1))"

definition addElement :: "SVGElement \<Rightarrow> SVGDocumentManager \<Rightarrow> string option \<times> SVGDocumentManager" where
  "addElement element m =
     (element_id element,
      emit \<lparr>ev_type = ElementAdded, ev_elementId = element_id element\<rparr>
        (m\<lparr>document := (document m)\<lparr>doc_elements := doc_elements (document m) @ [element]\<rparr>,
           isDirty := True\<rparr>))"

text \<open>
  \<open>findElement\<close>: depth first, an element before its children. The loop
  \<open>for (const el of elements)\<close> over the \<open>children\<close> of an element of type
  \<open>'g'\<close> throws a \<open>TypeError\<close> when \<open>children\<close> is \<open>undefined\<close>.
\<close>

fun findElement :: "SVGElement list \<Rightarrow> string \<Rightarrow> js_error + SVGElement option" where
  "findElement [] i = Inr None"
| "findElement (SVGElement t a f ch # els) i =
     (if attr_id a = Some i then Inr (Some (SVGElement t a f ch))
      else if t = Some TypeG then
        (case ch of
           None \<Rightarrow> Inl TypeError
         | Some children \<Rightarrow>
             (case findElement children i of
                Inl err \<Rightarrow> Inl err
              | Inr (Some found) \<Rightarrow> Inr (Some found)
              | Inr None \<Rightarrow> findElement els i))
      else findElement els i)"

definition getElementById :: "SVGDocumentManager \<Rightarrow> string \<Rightarrow> js_error + SVGElement option" where
  "getElementById m i = findElement (doc_elements (document m)) i"

text \<open>
  \<open>Object.assign(element, updates)\<close> writes into the object that
  \<open>getElementById\<close> returned, which is a node of the tree. \<open>assignElement\<close>
  walks the tree as \<open>findElement\<close> does and replaces that node by the spread of
  \<open>updates\<close> over it; it leaves the tree as it is where \<open>findElement\<close> finds
  nothing or throws. (An object stored at two places of a tree changes at both in
  the code; the model changes the place that the search reaches, and the
  properties below speak of that place only.)
\<close>

fun assignElement :: "SVGElement list \<Rightarrow> string \<Rightarrow> PartialElement \<Rightarrow> SVGElement list" where
  "assignElement [] i updates = []"
| "assignElement (SVGElement t a f ch # els) i updates =
     (if attr_id a = Some i then updateElement (SVGElement t a f ch) updates # els
      else if t = Some TypeG then
        (case ch of
           None \<Rightarrow> SVGElement t a f ch # els
         | Some children \<Rightarrow>
             (case findElement children i of
                Inl err \<Rightarrow> SVGElement t a f ch # els
              | Inr (Some found) \<Rightarrow> SVGElement t a f (Some (assignElement children i updates)) # els
              | Inr None \<Rightarrow> SVGElement t a f ch # assignElement els i updates))
      else SVGElement t a f ch # assignElement els i updates)"

definition SVGDocumentManager_updateElement ::
  "string \<Rightarrow> PartialElement \<Rightarrow> SVGDocumentManager \<Rightarrow> (js_error + bool) \<times> SVGDocumentManager" where
  "SVGDocumentManager_updateElement i updates m =
     (case getElementById m i of
        Inl err \<Rightarrow> (Inl err, m)
      | Inr None \<Rightarrow> (Inr False, m)
      | Inr (Some element) \<Rightarrow>
          (Inr True,
           emit \<lparr>ev_type = ElementUpdated, ev_elementId = Some i\<rparr>
             (m\<lparr>document := (document m)\<lparr>doc_elements :=
                    assignElement (doc_elements (document m)) i updates\<rparr>,
                isDirty := True\<rparr>)))"

text \<open>
  \<open>collectAllIds\<close>: the identifiers in document order, an \<open>undefined\<close> one as
  \<open>None\<close>; a \<open>TypeError\<close> at an element of type \<open>'g'\<close> without \<open>children\<close>.
\<close>

fun collectAllIds :: "SVGElement list \<Rightarrow> js_error + string option list" where
  "collectAllIds [] = Inr []"
| "collectAllIds (SVGElement t a f ch # els) =
     (if t = Some TypeG then
        (case ch of
           None \<Rightarrow> Inl TypeError
         | Some children \<Rightarrow>
             (case collectAllIds children of
                Inl err \<Rightarrow> Inl err
              | Inr inner \<Rightarrow>
                  (case collectAllIds els of
                     Inl err \<Rightarrow> Inl err
                   | Inr others \<Rightarrow> Inr (attr_id a # inner @ others))))
      else (case collectAllIds els of
              Inl err \<Rightarrow> Inl err
            | Inr others \<Rightarrow> Inr (attr_id a # others)))"

text \<open>\<open>toJSON\<close>: a deep copy of the document.\<close>

definition SVGDocumentManager_toJSON :: "SVGDocumentManager \<Rightarrow> SVGDocument" where
  "SVGDocumentManager_toJSON m = document m"

section \<open>History manager (src/types/index.ts, src/core/history-manager.ts)\<close>

text \<open>
  \<open>HistoryEntry\<close>: \<open>id action timestamp data description\<close>; \<open>record\<close> always
  stores \<open>data: null\<close>. A \<open>Date\<close> is its time value in milliseconds.
\<close>

record HistoryEntry =
  entry_id :: string
  entry_action :: string
  entry_timestamp :: int
  entry_data :: unit
  entry_description :: string

record DocumentSnapshot =
  snap_document :: SVGDocument
  snap_timestamp :: int

record HistoryManager =
  entries :: "HistoryEntry list"
  snapshots :: "string \<rightharpoonup> DocumentSnapshot"
  currentIndex :: int
  maxEntries :: int
  isRecording :: bool

definition new_HistoryManager :: "int option \<Rightarrow> HistoryManager" where
  "new_HistoryManager maxEntries_arg =
     \<lparr>entries = [], snapshots = Map.empty, currentIndex = - 1,
      maxEntries = (case maxEntries_arg of None \<Rightarrow> 100 | Some k \<Rightarrow> k), isRecording = True\<rparr>"

definition canUndo :: "HistoryManager \<Rightarrow> bool" where
  "canUndo h = (currentIndex h \<ge> 0)"

definition canRedo :: "HistoryManager \<Rightarrow> bool" where
  "canRedo h = (currentIndex h < int (length (entries h)) - 1)"

text \<open>
  \<open>entries.splice(start)\<close> removes and returns everything from \<open>start\<close> on; a
  negative \<open>start\<close> counts from the end. The result is (kept, removed).
\<close>

definition splice_from :: "int \<Rightarrow> 'a list \<Rightarrow> 'a list \<times> 'a list" where
  "splice_from start xs =
     (let n = int (length xs);
          k = (if start < 0 then max (n + start) 0 else min start n)
      in (take (nat k) xs, drop (nat k) xs))"

fun delete_snapshots :: "HistoryEntry list \<Rightarrow> (string \<rightharpoonup> DocumentSnapshot) \<Rightarrow> (string \<rightharpoonup> DocumentSnapshot)" where
  "delete_snapshots [] snaps = snaps"
| "delete_snapshots (entry # removed) snaps = delete_snapshots removed (snaps(entry_id entry := None))"

text \<open>One round of the eviction loop: \<open>shift\<close>, delete the snapshot, \<open>currentIndex--\<close>.\<close>

definition evict_step :: "HistoryManager \<Rightarrow> HistoryManager" where
  "evict_step h =
     (case entries h of
        [] \<Rightarrow> h\<lparr>currentIndex := currentIndex h - 1\<rparr>
      | removed # rest \<Rightarrow>
          h\<lparr>entries := rest, snapshots := (snapshots h)(entry_id removed := None),
            currentIndex := currentIndex h - 1\<rparr>)"

text \<open>
  \<open>while (this.entries.length > this.maxEntries)\<close>. With a negative \<open>maxEntries\<close>
  the loop never ends; \<open>None\<close> is the call that does not return.
\<close>

partial_function (option) evict_loop :: "HistoryManager \<Rightarrow> HistoryManager option" where
  "evict_loop h =
     (if int (length (entries h)) > maxEntries h then evict_loop (evict_step h) else Some h)"

text \<open>
  \<open>record(action, description, documentState)\<close>. The two values the method draws
  from its environment are arguments: \<open>uuid\<close> (of \<open>uuidv4()\<close>) and \<open>now\<close>
  (of \<open>new Date()\<close>). The snapshot is stored, and later returned, through
  \<open>JSON.parse(JSON.stringify(...))\<close>: a copy that shares nothing with the live
  document, and as a value the document itself.
\<close>

definition record_entry ::
  "string \<Rightarrow> string \<Rightarrow> SVGDocument \<Rightarrow> string \<Rightarrow> int \<Rightarrow> HistoryManager \<Rightarrow> HistoryManager option" where
  "record_entry action description documentState uuid now h =
     (if \<not> isRecording h then Some h
      else
        let h1 = (if currentIndex h < int (length (entries h)) - 1
                  then (let (kept, removedEntries) = splice_from (currentIndex h + 1) (entries h)
                        in h\<lparr>entries := kept, snapshots := delete_snapshots removedEntries (snapshots h)\<rparr>)
                  else h);
            entry = \<lparr>entry_id = generateUUID (Some ''history'') uuid, entry_action = action,
                     entry_timestamp = now, entry_data = (), entry_description = description\<rparr>;
            h2 = h1\<lparr>snapshots := (snapshots h1)(entry_id entry \<mapsto>
                       \<lparr>snap_document = documentState, snap_timestamp = entry_timestamp entry\<rparr>)\<rparr>;
            h3 = h2\<lparr>entries := entries h2 @ [entry]\<rparr>;
            h4 = h3\<lparr>currentIndex := int (length (entries h3)) - 1\<rparr>
        in evict_loop h4)"

text \<open>\<open>this.entries[i]\<close>: \<open>undefined\<close> outside the array.\<close>

definition entry_at :: "HistoryEntry list \<Rightarrow> int \<Rightarrow> HistoryEntry option" where
  "entry_at es i = (if 0 \<le> i \<and> i < int (length es) then Some (es ! nat i) else None)"

text \<open>
  The last three lines of \<open>undo\<close>, \<open>redo\<close> and \<open>goto\<close>: read the entry, look
  its snapshot up, return a copy of the document or \<open>null\<close>. Reading \<open>.id\<close> of
  an entry that is \<open>undefined\<close> throws.
\<close>

definition snapshot_of_entry :: "HistoryManager \<Rightarrow> int \<Rightarrow> js_error + SVGDocument option" where
  "snapshot_of_entry h i =
     (case entry_at (entries h) i of
        None \<Rightarrow> Inl TypeError
      | Some entry \<Rightarrow>
          (case snapshots h (entry_id entry) of
             None \<Rightarrow> Inr None
           | Some snapshot \<Rightarrow> Inr (Some (snap_document snapshot))))"

definition undo :: "int \<Rightarrow> HistoryManager \<Rightarrow> (js_error + SVGDocument option) \<times> HistoryManager" where
  "undo steps h =
     (if \<not> canUndo h then (Inr None, h)
      else
        let targetIndex = max 0 (currentIndex h - steps)
        in if targetIndex > 0
           then (let h1 = h\<lparr>currentIndex := targetIndex - 1\<rparr>
                 in (snapshot_of_entry h1 (currentIndex h1), h1))
           else (let h1 = h\<lparr>currentIndex := - 1\<rparr>
                 in (snapshot_of_entry h1 0, h1)))"

definition redo :: "int \<Rightarrow> HistoryManager \<Rightarrow> (js_error + SVGDocument option) \<times> HistoryManager" where
  "redo steps h =
     (if \<not> canRedo h then (Inr None, h)
      else
        let targetIndex = min (int (length (entries h)) - 1) (currentIndex h + steps);
            h1 = h\<lparr>currentIndex := targetIndex\<rparr>
        in (snapshot_of_entry h1 (currentIndex h1), h1))"

definition goto :: "int \<Rightarrow> HistoryManager \<Rightarrow> (js_error + SVGDocument option) \<times> HistoryManager" where
  "goto historyIndex h =
     (if historyIndex < 0 \<or> historyIndex \<ge> int (length (entries h)) then (Inr None, h)
      else
        let h1 = h\<lparr>currentIndex := historyIndex\<rparr>
        in (snapshot_of_entry h1 (currentIndex h1), h1))"

definition pauseRecording :: "HistoryManager \<Rightarrow> HistoryManager" where
  "pauseRecording h = h\<lparr>isRecording := False\<rparr>"

definition resumeRecording :: "HistoryManager \<Rightarrow> HistoryManager" where
  "resumeRecording h = h\<lparr>isRecording := True\<rparr>"

definition clear :: "HistoryManager \<Rightarrow> HistoryManager" where
  "clear h = h\<lparr>entries := [], snapshots := Map.empty, currentIndex := - 1\<rparr>"

section \<open>Layer manager (src/types/layer.ts, core/layer-manager.ts in src/unnamed/part_001)\<close>

datatype BlendMode =
    BlendNormal | BlendMultiply | BlendScreen | BlendOverlay | BlendDarken | BlendLighten
  | BlendColorDodge | BlendColorBurn | BlendHardLight | BlendSoftLight | BlendDifference
  | BlendExclusion | BlendHue | BlendSaturation | BlendColor | BlendLuminosity

text \<open>
  \<open>Layer\<close>: \<open>id name visible locked opacity blendMode? elements parentId?\<close>;
  \<open>elements\<close> holds element identifiers, not elements.
\<close>

record Layer =
  layer_id :: string
  layer_name :: string
  layer_visible :: bool
  layer_locked :: bool
  layer_opacity :: real
  layer_blendMode :: "BlendMode option"
  layer_elements :: "string list"
  layer_parentId :: "string option"

text \<open>
  The messages of the results are Korean sentences built from a layer name or a
  value. A message is its sentence pattern and the values put into it: created,
  not found, last layer cannot be deleted, deleted, renamed (old, new), invalid
  index, reordered, shown or hidden, locked or unlocked, opacity out of range,
  opacity set (the rounded percentage), blend mode set, active layer set, locked
  layer takes no element, element added, element removed, element not found,
  a layer cannot be merged with itself, duplicated.
\<close>

datatype LayerMessage =
    MsgCreated string
  | MsgLayerNotFound
  | MsgLastLayer
  | MsgDeleted string
  | MsgRenamed string string
  | MsgInvalidIndex
  | MsgReordered string
  | MsgVisibility string bool
  | MsgLock string bool
  | MsgOpacityRange
  | MsgOpacity string int
  | MsgBlendMode string BlendMode
  | MsgActive string
  | MsgLockedLayer
  | MsgElementAdded string
  | MsgElementRemoved string
  | MsgElementNotFound
  | MsgSameLayer
  | MsgDuplicated string

record LayerOperationResult =
  success :: bool
  layerId :: "string option"
  message :: "LayerMessage option"

record LayerManager =
  layers :: "Layer list"
  activeLayerId :: "string option"

definition failure :: "LayerMessage \<Rightarrow> LayerOperationResult" where
  "failure msg = \<lparr>success = False, layerId = None, message = Some msg\<rparr>"

text \<open>\<open>layers.findIndex(l => l.id === layerId)\<close>; \<open>None\<close> is the result \<open>-1\<close>.\<close>

fun findIndex :: "('a \<Rightarrow> bool) \<Rightarrow> 'a list \<Rightarrow> nat option" where
  "findIndex P [] = None"
| "findIndex P (x # xs) = (if P x then Some 0 else map_option Suc (findIndex P xs))"

definition getLayer :: "LayerManager \<Rightarrow> string \<Rightarrow> Layer option" where
  "getLayer lm i = List.find (\<lambda>l. layer_id l = i) (layers lm)"

text \<open>
  A method that writes a field of the object \<open>getLayer\<close> returned changes the
  first layer of the list that has the identifier.
\<close>

fun modify_layer :: "string \<Rightarrow> (Layer \<Rightarrow> Layer) \<Rightarrow> Layer list \<Rightarrow> Layer list" where
  "modify_layer i f [] = []"
| "modify_layer i f (l # ls) = (if layer_id l = i then f l # ls else l # modify_layer i f ls)"

text \<open>\<open>array.splice(k, 0, x)\<close> for \<open>0 \<le> k \<le> length\<close>, and \<open>array.splice(k, 1)\<close>.\<close>

definition insert_at :: "nat \<Rightarrow> 'a \<Rightarrow> 'a list \<Rightarrow> 'a list" where
  "insert_at k x xs = take k xs @ x # drop k xs"

definition remove_at :: "nat \<Rightarrow> 'a list \<Rightarrow> 'a list" where
  "remove_at k xs = take k xs @ drop (Suc k) xs"

definition createLayer ::
  "string option \<Rightarrow> int option \<Rightarrow> Counters \<Rightarrow> LayerManager \<Rightarrow> LayerOperationResult \<times> LayerManager \<times> Counters" where
  "createLayer name insertAt counters lm =
     (let (i, c1) = generateId ''layer'' counters;
          default_name = ''Layer '' @ string_of_nat (length (layers lm) + 1);
          layer = \<lparr>layer_id = i,
                   layer_name = (case name of None \<Rightarrow> default_name
                                 | Some n \<Rightarrow> if n = [] then default_name else n),
                   layer_visible = True, layer_locked = False, layer_opacity = 1,
                   layer_blendMode = None, layer_elements = [], layer_parentId = None\<rparr>;
          ls = (case insertAt of
                  None \<Rightarrow> layers lm @ [layer]
                | Some k \<Rightarrow> if k \<ge> 0 \<and> k \<le> int (length (layers lm))
                            then insert_at (nat k) layer (layers lm)
                            else layers lm @ [layer]);
          lm1 = lm\<lparr>layers := ls\<rparr>;
          lm2 = (if length (layers lm1) = 1 then lm1\<lparr>activeLayerId := Some (layer_id layer)\<rparr> else lm1)
      in (\<lparr>success = True, layerId = Some (layer_id layer), message = Some (MsgCreated (layer_name layer))\<rparr>,
          lm2, c1))"

text \<open>The constructor creates the default layer.\<close>

definition new_LayerManager :: "Counters \<Rightarrow> LayerManager \<times> Counters" where
  "new_LayerManager counters =
     snd (createLayer (Some ''Layer 1'') None counters \<lparr>layers = [], activeLayerId = None\<rparr>)"

text \<open>\<open>this.layers[k]?.id || null\<close>: \<open>null\<close> outside the array and for an empty id.\<close>

definition id_at_or_null :: "Layer list \<Rightarrow> nat \<Rightarrow> string option" where
  "id_at_or_null ls k =
     (if k < length ls then (if layer_id (ls ! k) = [] then None else Some (layer_id (ls ! k))) else None)"

definition deleteLayer :: "string \<Rightarrow> LayerManager \<Rightarrow> LayerOperationResult \<times> LayerManager" where
  "deleteLayer i lm =
     (case findIndex (\<lambda>l. layer_id l = i) (layers lm) of
        None \<Rightarrow> (failure MsgLayerNotFound, lm)
      | Some index \<Rightarrow>
          if length (layers lm) = 1 then (failure MsgLastLayer, lm)
          else
            let layer = layers lm ! index;
                lm1 = lm\<lparr>layers := remove_at index (layers lm)\<rparr>;
                lm2 = (if activeLayerId lm1 = Some i
                       then lm1\<lparr>activeLayerId :=
                              id_at_or_null (layers lm1) (min index (length (layers lm1) - 1))\<rparr>
                       else lm1)
            in (\<lparr>success = True, layerId = None, message = Some (MsgDeleted (layer_name layer))\<rparr>, lm2))"

definition renameLayer :: "string \<Rightarrow> string \<Rightarrow> LayerManager \<Rightarrow> LayerOperationResult \<times> LayerManager" where
  "renameLayer i newName lm =
     (case getLayer lm i of
        None \<Rightarrow> (failure MsgLayerNotFound, lm)
      | Some layer \<Rightarrow>
          (\<lparr>success = True, layerId = Some i, message = Some (MsgRenamed (layer_name layer) newName)\<rparr>,
           lm\<lparr>layers := modify_layer i (\<lambda>l. l\<lparr>layer_name := newName\<rparr>) (layers lm)\<rparr>))"

definition reorderLayer :: "string \<Rightarrow> int \<Rightarrow> LayerManager \<Rightarrow> LayerOperationResult \<times> LayerManager" where
  "reorderLayer i newIndex lm =
     (case findIndex (\<lambda>l. layer_id l = i) (layers lm) of
        None \<Rightarrow> (failure MsgLayerNotFound, lm)
      | Some current \<Rightarrow>
          if newIndex < 0 \<or> newIndex \<ge> int (length (layers lm)) then (failure MsgInvalidIndex, lm)
          else
            let layer = layers lm ! current;
                ls = insert_at (nat newIndex) layer (remove_at current (layers lm))
            in (\<lparr>success = True, layerId = Some i, message = Some (MsgReordered (layer_name layer))\<rparr>,
                lm\<lparr>layers := ls\<rparr>))"

definition setLayerVisibility :: "string \<Rightarrow> bool \<Rightarrow> LayerManager \<Rightarrow> LayerOperationResult \<times> LayerManager" where
  "setLayerVisibility i visible lm =
     (case getLayer lm i of
        None \<Rightarrow> (failure MsgLayerNotFound, lm)
      | Some layer \<Rightarrow>
          (\<lparr>success = True, layerId = Some i, message = Some (MsgVisibility (layer_name layer) visible)\<rparr>,
           lm\<lparr>layers := modify_layer i (\<lambda>l. l\<lparr>layer_visible := visible\<rparr>) (layers lm)\<rparr>))"

definition setLayerLock :: "string \<Rightarrow> bool \<Rightarrow> LayerManager \<Rightarrow> LayerOperationResult \<times> LayerManager" where
  "setLayerLock i locked lm =
     (case getLayer lm i of
        None \<Rightarrow> (failure MsgLayerNotFound, lm)
      | Some layer \<Rightarrow>
          (\<lparr>success = True, layerId = Some i, message = Some (MsgLock (layer_name layer) locked)\<rparr>,
           lm\<lparr>layers := modify_layer i (\<lambda>l. l\<lparr>layer_locked := locked\<rparr>) (layers lm)\<rparr>))"

definition setLayerOpacity :: "string \<Rightarrow> real \<Rightarrow> LayerManager \<Rightarrow> LayerOperationResult \<times> LayerManager" where
  "setLayerOpacity i opacity lm =
     (case getLayer lm i of
        None \<Rightarrow> (failure MsgLayerNotFound, lm)
      | Some layer \<Rightarrow>
          if opacity < 0 \<or> opacity > 1 then (failure MsgOpacityRange, lm)
          else
            (\<lparr>success = True, layerId = Some i,
              message = Some (MsgOpacity (layer_name layer) (\<lfloor>opacity * 100 + 1 / 2\<rfloor>))\<rparr>,
             lm\<lparr>layers := modify_layer i (\<lambda>l. l\<lparr>layer_opacity := opacity\<rparr>) (layers lm)\<rparr>))"

definition setLayerBlendMode :: "string \<Rightarrow> BlendMode \<Rightarrow> LayerManager \<Rightarrow> LayerOperationResult \<times> LayerManager" where
  "setLayerBlendMode i blendMode lm =
     (case getLayer lm i of
        None \<Rightarrow> (failure MsgLayerNotFound, lm)
      | Some layer \<Rightarrow>
          (\<lparr>success = True, layerId = Some i, message = Some (MsgBlendMode (layer_name layer) blendMode)\<rparr>,
           lm\<lparr>layers := modify_layer i (\<lambda>l. l\<lparr>layer_blendMode := Some blendMode\<rparr>) (layers lm)\<rparr>))"

definition getActiveLayer :: "LayerManager \<Rightarrow> Layer option" where
  "getActiveLayer lm =
     (case activeLayerId lm of
        None \<Rightarrow> None
      | Some a \<Rightarrow> if a = [] then None else getLayer lm a)"

definition setActiveLayer :: "string \<Rightarrow> LayerManager \<Rightarrow> LayerOperationResult \<times> LayerManager" where
  "setActiveLayer i lm =
     (case getLayer lm i of
        None \<Rightarrow> (failure MsgLayerNotFound, lm)
      | Some layer \<Rightarrow>
          (\<lparr>success = True, layerId = Some i, message = Some (MsgActive (layer_name layer))\<rparr>,
           lm\<lparr>activeLayerId := Some i\<rparr>))"

text \<open>
  \<open>addElementToLayer\<close>. The loop takes the first occurrence of the element
  identifier out of every layer (\<open>indexOf\<close>, \<open>splice(index, 1)\<close>); then the
  identifier is pushed onto the layer found at the start.
\<close>

definition addElementToLayer :: "string \<Rightarrow> string \<Rightarrow> LayerManager \<Rightarrow> LayerOperationResult \<times> LayerManager" where
  "addElementToLayer i elementId lm =
     (case getLayer lm i of
        None \<Rightarrow> (failure MsgLayerNotFound, lm)
      | Some layer \<Rightarrow>
          if layer_locked layer then (failure MsgLockedLayer, lm)
          else
            let ls1 = map (\<lambda>l. l\<lparr>layer_elements := remove1 elementId (layer_elements l)\<rparr>) (layers lm);
                ls2 = modify_layer i (\<lambda>l. l\<lparr>layer_elements := layer_elements l @ [elementId]\<rparr>) ls1
            in (\<lparr>success = True, layerId = Some i, message = Some (MsgElementAdded (layer_name layer))\<rparr>,
                lm\<lparr>layers := ls2\<rparr>))"

definition addElementToActiveLayer ::
  "string \<Rightarrow> Counters \<Rightarrow> LayerManager \<Rightarrow> LayerOperationResult \<times> LayerManager \<times> Counters" where
  "addElementToActiveLayer elementId counters lm =
     (case getActiveLayer lm of
        None \<Rightarrow>
          (let (result, lm1, c1) = createLayer None None counters lm
           in case layerId result of
                None \<Rightarrow> (result, lm1, c1)
              | Some new_id \<Rightarrow>
                  if \<not> success result \<or> new_id = [] then (result, lm1, c1)
                  else (let (r, lm2) = addElementToLayer new_id elementId lm1 in (r, lm2, c1)))
      | Some activeLayer \<Rightarrow>
          (let (r, lm1) = addElementToLayer (layer_id activeLayer) elementId lm in (r, lm1, counters)))"

definition findLayerByElement :: "LayerManager \<Rightarrow> string \<Rightarrow> Layer option" where
  "findLayerByElement lm elementId = List.find (\<lambda>l. elementId \<in> set (layer_elements l)) (layers lm)"

fun remove_from_first_holder :: "string \<Rightarrow> Layer list \<Rightarrow> (string \<times> Layer list) option" where
  "remove_from_first_holder elementId [] = None"
| "remove_from_first_holder elementId (l # ls) =
     (if elementId \<in> set (layer_elements l)
      then Some (layer_name l, l\<lparr>layer_elements := remove1 elementId (layer_elements l)\<rparr> # ls)
      else map_option (\<lambda>(n, ls'). (n, l # ls')) (remove_from_first_holder elementId ls))"

definition removeElementFromLayer :: "string \<Rightarrow> LayerManager \<Rightarrow> LayerOperationResult \<times> LayerManager" where
  "removeElementFromLayer elementId lm =
     (case remove_from_first_holder elementId (layers lm) of
        None \<Rightarrow> (failure MsgElementNotFound, lm)
      | Some (n, ls) \<Rightarrow>
          (\<lparr>success = True, layerId = None, message = Some (MsgElementRemoved n)\<rparr>, lm\<lparr>layers := ls\<rparr>))"

text \<open>
  \<open>mergeLayers\<close> pushes the source's identifiers onto the target with no look at
  the target's lock, then deletes the source through \<open>deleteLayer\<close>.
\<close>

definition mergeLayers :: "string \<Rightarrow> string \<Rightarrow> LayerManager \<Rightarrow> LayerOperationResult \<times> LayerManager" where
  "mergeLayers sourceLayerId targetLayerId lm =
     (case (getLayer lm sourceLayerId, getLayer lm targetLayerId) of
        (Some sourceLayer, Some targetLayer) \<Rightarrow>
          if sourceLayerId = targetLayerId then (failure MsgSameLayer, lm)
          else
            let ls = modify_layer targetLayerId
                       (\<lambda>l. l\<lparr>layer_elements := layer_elements l @ layer_elements sourceLayer\<rparr>) (layers lm)
            in deleteLayer sourceLayerId (lm\<lparr>layers := ls\<rparr>)
      | _ \<Rightarrow> (failure MsgLayerNotFound, lm))"

text \<open>
  The name of a duplicate ends in a space and the Korean word for copy in
  parentheses; these are the bytes of that suffix in UTF-8.
\<close>

definition copy_suffix :: string where
  "copy_suffix = [CHR 0x20, CHR 0x28, CHR 0xEB, CHR 0xB3, CHR 0xB5, CHR 0xEC, CHR 0x82, CHR 0xAC,
                  CHR 0xEB, CHR 0xB3, CHR 0xB8, CHR 0x29]"

definition duplicateLayer ::
  "string \<Rightarrow> Counters \<Rightarrow> LayerManager \<Rightarrow> LayerOperationResult \<times> LayerManager \<times> Counters" where
  "duplicateLayer i counters lm =
     (case getLayer lm i of
        None \<Rightarrow> (failure MsgLayerNotFound, lm, counters)
      | Some layer \<Rightarrow>
          let (new_id, c1) = generateId ''layer'' counters;
              newLayer = \<lparr>layer_id = new_id, layer_name = layer_name layer @ copy_suffix,
                          layer_visible = layer_visible layer, layer_locked = False,
                          layer_opacity = layer_opacity layer, layer_blendMode = layer_blendMode layer,
                          layer_elements = layer_elements layer, layer_parentId = None\<rparr>;
              index = (case findIndex (\<lambda>l. layer_id l = i) (layers lm) of None \<Rightarrow> 0 | Some k \<Rightarrow> k + 1)
          in (\<lparr>success = True, layerId = Some new_id, message = Some (MsgDuplicated (layer_name newLayer))\<rparr>,
              lm\<lparr>layers := insert_at index newLayer (layers lm)\<rparr>, c1))"

definition reset :: "Counters \<Rightarrow> LayerManager \<Rightarrow> LayerManager \<times> Counters" where
  "reset counters lm =
     snd (createLayer (Some ''Layer 1'') None counters (lm\<lparr>layers := [], activeLayerId := None\<rparr>))"

definition LayerManager_fromJSON ::
  "Layer list \<Rightarrow> string option \<Rightarrow> Counters \<Rightarrow> LayerManager \<Rightarrow> LayerManager \<times> Counters" where
  "LayerManager_fromJSON data_layers data_active counters lm =
     (let lm1 = lm\<lparr>layers := data_layers, activeLayerId := data_active\<rparr>
      in if length (layers lm1) = 0 then snd (createLayer (Some ''Layer 1'') None counters lm1)
         else (lm1, counters))"

text \<open>The operations of the class that change it, and a sequence of them.\<close>

datatype LayerOp =
    CreateLayer "string option" "int option"
  | DeleteLayer string
  | RenameLayer string string
  | ReorderLayer string int
  | SetLayerVisibility string bool
  | SetLayerLock string bool
  | SetLayerOpacity string real
  | SetLayerBlendMode string BlendMode
  | SetActiveLayer string
  | AddElementToLayer string string
  | AddElementToActiveLayer string
  | RemoveElementFromLayer string
  | MergeLayers string string
  | DuplicateLayer string
  | Reset
  | FromJSON "Layer list" "string option"

fun apply_op :: "LayerOp \<Rightarrow> LayerManager \<times> Counters \<Rightarrow> LayerOperationResult option \<times> LayerManager \<times> Counters" where
  "apply_op (CreateLayer name insertAt) (lm, c) =
     (let (r, lm1, c1) = createLayer name insertAt c lm in (Some r, lm1, c1))"
| "apply_op (DeleteLayer i) (lm, c) = (let (r, lm1) = deleteLayer i lm in (Some r, lm1, c))"
| "apply_op (RenameLayer i n) (lm, c) = (let (r, lm1) = renameLayer i n lm in (Some r, lm1, c))"
| "apply_op (ReorderLayer i k) (lm, c) = (let (r, lm1) = reorderLayer i k lm in (Some r, lm1, c))"
| "apply_op (SetLayerVisibility i v) (lm, c) = (let (r, lm1) = setLayerVisibility i v lm in (Some r, lm1, c))"
| "apply_op (SetLayerLock i v) (lm, c) = (let (r, lm1) = setLayerLock i v lm in (Some r, lm1, c))"
| "apply_op (SetLayerOpacity i v) (lm, c) = (let (r, lm1) = setLayerOpacity i v lm in (Some r, lm1, c))"
| "apply_op (SetLayerBlendMode i v) (lm, c) = (let (r, lm1) = setLayerBlendMode i v lm in (Some r, lm1, c))"
| "apply_op (SetActiveLayer i) (lm, c) = (let (r, lm1) = setActiveLayer i lm in (Some r, lm1, c))"
| "apply_op (AddElementToLayer i e) (lm, c) = (let (r, lm1) = addElementToLayer i e lm in (Some r, lm1, c))"
| "apply_op (AddElementToActiveLayer e) (lm, c) =
     (let (r, lm1, c1) = addElementToActiveLayer e c lm in (Some r, lm1, c1))"
| "apply_op (RemoveElementFromLayer e) (lm, c) = (let (r, lm1) = removeElementFromLayer e lm in (Some r, lm1, c))"
| "apply_op (MergeLayers s t) (lm, c) = (let (r, lm1) = mergeLayers s t lm in (Some r, lm1, c))"
| "apply_op (DuplicateLayer i) (lm, c) = (let (r, lm1, c1) = duplicateLayer i c lm in (Some r, lm1, c1))"
| "apply_op Reset (lm, c) = (let (lm1, c1) = reset c lm in (None, lm1, c1))"
| "apply_op (FromJSON ls a) (lm, c) = (let (lm1, c1) = LayerManager_fromJSON ls a c lm in (None, lm1, c1))"

fun run_ops :: "LayerOp list \<Rightarrow> LayerManager \<times> Counters \<Rightarrow> LayerManager \<times> Counters" where
  "run_ops [] s = s"
| "run_ops (op # ops) s = run_ops ops (snd (apply_op op s))"

text \<open>A sequence of \<open>addElementToLayer(layerId, elementId)\<close> calls.\<close>

fun add_all :: "(string \<times> string) list \<Rightarrow> LayerManager \<Rightarrow> LayerManager" where
  "add_all [] lm = lm"
| "add_all ((i, e) # calls) lm = add_all calls (snd (addElementToLayer i e lm))"

section \<open>Auxiliary notions for the history manager\<close>

text \<open>
  The state that \<open>n\<close> rounds of the eviction loop leave: the first \<open>n\<close> entries
  and their snapshots are gone and the cursor has moved down by \<open>n\<close>.
\<close>

definition evicted :: "nat \<Rightarrow> HistoryManager \<Rightarrow> HistoryManager" where
  "evicted n h = h\<lparr>entries := drop n (entries h),
      snapshots := delete_snapshots (take n (entries h)) (snapshots h),
      currentIndex := currentIndex h - int n\<rparr>"

text \<open>The entry that one call of \<open>record\<close> builds.\<close>

definition new_entry :: "string \<Rightarrow> string \<Rightarrow> string \<Rightarrow> int \<Rightarrow> HistoryEntry" where
  "new_entry action description uuid now =
     \<lparr>entry_id = generateUUID (Some ''history'') uuid, entry_action = action,
      entry_timestamp = now, entry_data = (), entry_description = description\<rparr>"

text \<open>
  The state of \<open>record\<close> when it reaches the eviction loop: the redo branch is cut,
  the new entry and its snapshot are stored, the cursor is on the new entry.
\<close>

definition appended ::
  "string \<Rightarrow> string \<Rightarrow> SVGDocument \<Rightarrow> string \<Rightarrow> int \<Rightarrow> HistoryManager \<Rightarrow> HistoryManager" where
  "appended action description documentState uuid now h =
     h\<lparr>entries := take (nat (currentIndex h + 1)) (entries h) @ [new_entry action description uuid now],
       snapshots := (delete_snapshots (drop (nat (currentIndex h + 1)) (entries h)) (snapshots h))
          (generateUUID (Some ''history'') uuid \<mapsto> \<lparr>snap_document = documentState, snap_timestamp = now\<rparr>),
       currentIndex := int (min (nat (currentIndex h + 1)) (length (entries h)))\<rparr>"

text \<open>
  The states the class can be in: the cursor is \<open>-1\<close> or the index of an entry,
  the entries have pairwise different identifiers, and each has its snapshot.
\<close>

definition history_ok :: "HistoryManager \<Rightarrow> bool" where
  "history_ok h =
     (- 1 \<le> currentIndex h \<and> currentIndex h < int (length (entries h)) \<and>
      distinct (map entry_id (entries h)) \<and>
      list_all (\<lambda>e. snapshots h (entry_id e) \<noteq> None) (entries h))"

text \<open>The document stored for the entry at index \<open>i\<close>.\<close>

definition snapshot_at :: "HistoryManager \<Rightarrow> int \<Rightarrow> SVGDocument option" where
  "snapshot_at h i = map_option snap_document (snapshots h (entry_id (entries h ! nat i)))"

text \<open>
  The algorithm of \<open>undo\<close> in the words of the specification (section 4.5):
  nothing happens when \<open>currentIndex < 0\<close>; otherwise
  \<open>target = max(0, currentIndex - steps)\<close>; if \<open>target > 0\<close> the cursor moves to
  \<open>target - 1\<close> and the snapshot at that position is returned; if \<open>target = 0\<close> the
  cursor moves to \<open>-1\<close> and the snapshot of entry 0 is returned.
\<close>

definition undo_spec :: "int \<Rightarrow> HistoryManager \<Rightarrow> SVGDocument option \<times> HistoryManager" where
  "undo_spec steps h =
     (if currentIndex h < 0 then (None, h)
      else
        let target = max 0 (currentIndex h - steps)
        in if target > 0 then (snapshot_at h (target - 1), h\<lparr>currentIndex := target - 1\<rparr>)
           else (snapshot_at h 0, h\<lparr>currentIndex := - 1\<rparr>))"

section \<open>The draw and undo scenario\<close>

text \<open>
  An 800 by 600 canvas, a rectangle at (10, 10) of size 100 by 50 filled
  \<open>#ff0000\<close>, then a circle at (200, 200) of radius 30, each step run through the
  document manager; \<open>document_0\<close>, \<open>document_rect\<close> and \<open>document_both\<close> are the
  states \<open>toJSON\<close> returns after each step.
\<close>

definition scenario_canvas :: "SVGDocumentManager \<times> Counters" where
  "scenario_canvas =
     (let (m, c) = new_SVGDocumentManager None Map.empty
      in create (\<lambda>s. None) 800 600 no_create_options c m)"

definition scenario_rect :: "SVGDocumentManager \<times> Counters" where
  "scenario_rect =
     (let (m, c) = scenario_canvas;
          (r, c1) = createRect 10 10 100 50 (no_options\<lparr>opt_fill := Some ''#ff0000''\<rparr>) c;
          (i, m1) = addElement r m
      in (m1, c1))"

definition scenario_circle :: "SVGDocumentManager \<times> Counters" where
  "scenario_circle =
     (let (m, c) = scenario_rect;
          (r, c1) = createCircle 200 200 30 no_options c;
          (i, m1) = addElement r m
      in (m1, c1))"

definition document_0 :: SVGDocument where
  "document_0 = SVGDocumentManager_toJSON (fst scenario_canvas)"

definition document_rect :: SVGDocument where
  "document_rect = SVGDocumentManager_toJSON (fst scenario_rect)"

definition document_both :: SVGDocument where
  "document_both = SVGDocumentManager_toJSON (fst scenario_circle)"

definition the_rect :: SVGElement where
  "the_rect =
     SVGElement (Some TypeRect) (factory_attributes ''rect-1'' (no_options\<lparr>opt_fill := Some ''#ff0000''\<rparr>))
       (own_fields [(K_x, Some (VNum 10)), (K_y, Some (VNum 10)), (K_width, Some (VNum 100)),
                    (K_height, Some (VNum 50)), (K_rx, None), (K_ry, None)])
       None"

definition the_circle :: SVGElement where
  "the_circle =
     SVGElement (Some TypeCircle) (factory_attributes ''circle-1'' no_options)
       (own_fields [(K_cx, Some (VNum 200)), (K_cy, Some (VNum 200)), (K_r, Some (VNum 30))])
       None"

text \<open>
  The histories after recording the rectangle, then the circle, then a third
  action, with the default bound of 100 entries.
\<close>

definition history_1 :: HistoryManager where
  "history_1 =
     \<lparr>entries = [new_entry ''draw_rect'' ''rectangle'' ''u1'' 1000],
      snapshots = [''history-u1'' \<mapsto> \<lparr>snap_document = document_rect, snap_timestamp = 1000\<rparr>],
      currentIndex = 0, maxEntries = 100, isRecording = True\<rparr>"

definition history_2 :: HistoryManager where
  "history_2 =
     \<lparr>entries = [new_entry ''draw_rect'' ''rectangle'' ''u1'' 1000,
                 new_entry ''draw_circle'' ''circle'' ''u2'' 2000],
      snapshots = [''history-u1'' \<mapsto> \<lparr>snap_document = document_rect, snap_timestamp = 1000\<rparr>,
                   ''history-u2'' \<mapsto> \<lparr>snap_document = document_both, snap_timestamp = 2000\<rparr>],
      currentIndex = 1, maxEntries = 100, isRecording = True\<rparr>"

definition history_3 :: HistoryManager where
  "history_3 =
     \<lparr>entries = [new_entry ''draw_rect'' ''rectangle'' ''u1'' 1000,
                 new_entry ''draw_circle'' ''circle'' ''u2'' 2000,
                 new_entry ''canvas_background'' ''background'' ''u3'' 3000],
      snapshots = [''history-u1'' \<mapsto> \<lparr>snap_document = document_rect, snap_timestamp = 1000\<rparr>,
                   ''history-u2'' \<mapsto> \<lparr>snap_document = document_both, snap_timestamp = 2000\<rparr>,
                   ''history-u3'' \<mapsto> \<lparr>snap_document = document_0, snap_timestamp = 3000\<rparr>],
      currentIndex = 2, maxEntries = 100, isRecording = True\<rparr>"

text \<open>The arguments of one call of \<open>record\<close>, and a run of such calls.\<close>

record RecordCall =
  rc_action :: string
  rc_description :: string
  rc_document :: SVGDocument
  rc_uuid :: string
  rc_now :: int

fun record_all :: "RecordCall list \<Rightarrow> HistoryManager \<Rightarrow> HistoryManager option" where
  "record_all [] h = Some h"
| "record_all (c # cs) h =
     (case record_entry (rc_action c) (rc_description c) (rc_document c) (rc_uuid c) (rc_now c) h of
        None \<Rightarrow> None
      | Some h' \<Rightarrow> record_all cs h')"

definition entry_of_call :: "RecordCall \<Rightarrow> HistoryEntry" where
  "entry_of_call c = new_entry (rc_action c) (rc_description c) (rc_uuid c) (rc_now c)"

text \<open>A run of \<open>redo\<close> calls, each on the state the one before left; their results.\<close>

fun redo_many :: "int list \<Rightarrow> HistoryManager \<Rightarrow> (js_error + SVGDocument option) list" where
  "redo_many [] h = []"
| "redo_many (steps # rest) h = (let (r, h') = redo steps h in r # redo_many rest h')"

text \<open>Six calls of \<open>record\<close> with six different identifiers.\<close>

definition example_call :: "string \<Rightarrow> RecordCall" where
  "example_call u =
     \<lparr>rc_action = ''draw_rect'', rc_description = ''rectangle'', rc_document = document_rect,
      rc_uuid = u, rc_now = 1000\<rparr>"

definition six_calls :: "RecordCall list" where
  "six_calls = map example_call [''a'', ''b'', ''c'', ''d'', ''e'', ''f'']"

section \<open>Auxiliary notions for the layer manager\<close>

text \<open>
  No element identifier is listed twice, in one layer or in two: the membership
  lists of all layers, put end to end, have no repetition.
\<close>

definition membership_distinct :: "LayerManager \<Rightarrow> bool" where
  "membership_distinct lm = distinct (concat (map layer_elements (layers lm)))"

text \<open>The layers whose membership list holds an element identifier.\<close>

definition holders :: "LayerManager \<Rightarrow> string \<Rightarrow> Layer list" where
  "holders lm e = filter (\<lambda>l. e \<in> set (layer_elements l)) (layers lm)"

text \<open>The two steps of \<open>addElementToLayer\<close> on one layer.\<close>

definition take_out :: "string \<Rightarrow> Layer \<Rightarrow> Layer" where
  "take_out e l = l\<lparr>layer_elements := remove1 e (layer_elements l)\<rparr>"

definition push_on :: "string \<Rightarrow> Layer \<Rightarrow> Layer" where
  "push_on e l = l\<lparr>layer_elements := layer_elements l @ [e]\<rparr>"

text \<open>
  A manager with three layers: the default layer, locked and empty; a layer
  that holds \<open>rect-1\<close>; an empty third layer.
\<close>

definition example_ops :: "LayerOp list" where
  "example_ops =
     [CreateLayer (Some ''L2'') None, CreateLayer None None,
      AddElementToLayer ''layer-2'' ''rect-1'', SetLayerLock ''layer-1'' True]"

definition example_manager :: LayerManager where
  "example_manager = fst (run_ops example_ops (new_LayerManager Map.empty))"

definition plain_layer :: "string \<Rightarrow> string \<Rightarrow> bool \<Rightarrow> string list \<Rightarrow> Layer" where
  "plain_layer i n locked es =
     \<lparr>layer_id = i, layer_name = n, layer_visible = True, layer_locked = locked, layer_opacity = 1,
      layer_blendMode = None, layer_elements = es, layer_parentId = None\<rparr>"

section \<open>Auxiliary notions for the element model and the document tree\<close>

text \<open>
  A place in a tree of elements: \<open>[k]\<close> is the element at index \<open>k\<close> of the
  list, \<open>k # rest\<close> the place \<open>rest\<close> among the \<open>children\<close> of that element.
  It stands for the identity of the object stored there.
\<close>

fun element_at :: "SVGElement list \<Rightarrow> nat list \<Rightarrow> SVGElement option" where
  "element_at els [] = None"
| "element_at els [k] = (if k < length els then Some (els ! k) else None)"
| "element_at els (k # j # path) =
     (if k < length els then
        (case element_children (els ! k) of
           None \<Rightarrow> None
         | Some children \<Rightarrow> element_at children (j # path))
      else None)"

text \<open>The same place, one element further down the list.\<close>

definition next_place :: "nat list \<Rightarrow> nat list" where
  "next_place path = (case path of [] \<Rightarrow> [] | k # rest \<Rightarrow> Suc k # rest)"

text \<open>The place of the element that \<open>findElement\<close> returns.\<close>

fun findPlace :: "SVGElement list \<Rightarrow> string \<Rightarrow> nat list option" where
  "findPlace [] i = None"
| "findPlace (SVGElement t a f ch # els) i =
     (if attr_id a = Some i then Some [0]
      else if t = Some TypeG then
        (case ch of
           None \<Rightarrow> None
         | Some children \<Rightarrow>
             (case findElement children i of
                Inl err \<Rightarrow> None
              | Inr (Some found) \<Rightarrow> map_option (\<lambda>path. 0 # path) (findPlace children i)
              | Inr None \<Rightarrow> map_option next_place (findPlace els i)))
      else map_option next_place (findPlace els i))"

text \<open>
  A path drawn with the identifier \<open>path-1\<close> given by the caller, the group
  that \<open>createGroup\<close> makes of it on a new table of counters, and the group
  that \<open>cloneElement\<close> returns for that group.
\<close>

definition the_path :: SVGElement where
  "the_path =
     SVGElement (Some TypePath) (factory_attributes ''path-1'' (no_options\<lparr>opt_id := Some ''path-1''\<rparr>))
       (own_fields [(K_d, Some (VStr ''M10 10 L90 90 Z''))]) None"

definition the_group :: SVGElement where
  "the_group =
     SVGElement (Some TypeG) (factory_attributes ''group-1'' no_options) (own_fields []) (Some [the_path])"

definition the_group_clone :: SVGElement where
  "the_group_clone =
     SVGElement (Some TypeG) (factory_attributes ''group-2'' no_options) (own_fields []) (Some [the_path])"

text \<open>
  Three partial-changes objects: one that turns an element into a group holding
  the circle of the scenario, one that sets \<open>type\<close> to \<open>'g'\<close> and nothing
  else, and one that carries an \<open>id\<close>.
\<close>

definition regrouped :: PartialElement where
  "regrouped = no_changes\<lparr>p_type := Some (Some TypeG), p_children := Some (Some [the_circle])\<rparr>"

definition retyped :: PartialElement where
  "retyped = no_changes\<lparr>p_type := Some (Some TypeG)\<rparr>"

definition renamed :: PartialElement where
  "renamed = no_changes\<lparr>p_attributes := (p_attributes no_changes)\<lparr>p_id := Some (Some ''rect-2'')\<rparr>\<rparr>"

text \<open>
  The document of the scenario after \<open>updateElement('rect-1', { type: 'g' })\<close>:
  its one element has type \<open>'g'\<close> and no \<open>children\<close>.
\<close>

definition retyped_manager :: SVGDocumentManager where
  "retyped_manager = snd (SVGDocumentManager_updateElement ''rect-1'' retyped (fst scenario_rect))"

section \<open>Properties of the identifier generator\<close>

text \<open>
  The equation of \<open>string_of_nat\<close> calls itself under a condition; it is applied
  by hand, not by the simplifier.
\<close>

declare string_of_nat.simps [simp del]

lemma string_of_nat_one_digit: "n < 10 \<Longrightarrow> string_of_nat n = [digit_char n]"
  by (subst string_of_nat.simps) simp

lemma string_of_nat_step:
  "\<not> n < 10 \<Longrightarrow> string_of_nat n = string_of_nat (n div 10) @ [digit_char (n mod 10)]"
  by (subst string_of_nat.simps) simp

text \<open>
  Once a counter has reached \<open>2^53\<close> it stays there, and \<open>generateId\<close>
  returns the identifier it returned the time before.
\<close>

lemma generateId_at_bound:
  "generateId p [p \<mapsto> 9007199254740992] = (p @ ''-9007199254740992'', [p \<mapsto> 9007199254740992])"
  by (simp add: generateId_def js_increment_def counter_falsy_def counter_value_def string_of_int_def
      string_of_nat_step string_of_nat_one_digit digit_char_def Let_def)

section \<open>Properties of the history manager\<close>

subsection \<open>The eviction loop returns when \<open>maxEntries\<close> is not negative\<close>

lemma evict_loop_done:
  "\<not> int (length (entries h)) > maxEntries h \<Longrightarrow> evict_loop h = Some h"
  by (subst evict_loop.simps) simp

lemma evict_loop_step:
  "int (length (entries h)) > maxEntries h \<Longrightarrow> evict_loop h = evict_loop (evict_step h)"
  by (subst evict_loop.simps) simp

lemma evicted_0: "evicted 0 h = h"
  by (simp add: evicted_def)

lemma evicted_Suc:
  "entries h \<noteq> [] \<Longrightarrow> evicted (Suc n) h = evicted n (evict_step h)"
  by (cases "entries h") (simp_all add: evicted_def evict_step_def)

lemma evict_loop_evicted:
  "0 \<le> maxEntries h \<Longrightarrow> n = nat (int (length (entries h)) - maxEntries h)
     \<Longrightarrow> evict_loop h = Some (evicted n h)"
proof (induction n arbitrary: h)
  case 0
  then show ?case by (simp add: evict_loop_done evicted_0)
next
  case (Suc n)
  then have gt: "int (length (entries h)) > maxEntries h" by linarith
  with Suc.prems have ne: "entries h \<noteq> []" by auto
  have m: "maxEntries (evict_step h) = maxEntries h"
    using ne by (cases "entries h") (simp_all add: evict_step_def)
  have l: "length (entries (evict_step h)) = length (entries h) - 1"
    using ne by (cases "entries h") (simp_all add: evict_step_def)
  have "evict_loop (evict_step h) = Some (evicted n (evict_step h))"
    using Suc.prems ne m l by (intro Suc.IH) (auto)
  then show ?case using gt ne by (simp add: evict_loop_step evicted_Suc)
qed

subsection \<open>What \<open>record\<close> leaves behind\<close>

lemma delete_snapshots_apply:
  "delete_snapshots es m k = (if k \<in> entry_id ` set es then None else m k)"
  by (induction es arbitrary: m) auto

lemma record_entry_paused:
  "\<not> isRecording h \<Longrightarrow> record_entry a d doc uuid now h = Some h"
  by (simp add: record_entry_def)

lemma splice_from_nonneg:
  "0 \<le> start \<Longrightarrow> splice_from start xs = (take (nat start) xs, drop (nat start) xs)"
  by (auto simp: splice_from_def Let_def min_def)

lemma record_entry_appended:
  assumes "isRecording h" "- 1 \<le> currentIndex h"
  shows "record_entry a d doc uuid now h = evict_loop (appended a d doc uuid now h)"
proof -
  let ?k = "nat (currentIndex h + 1)"
  show ?thesis
  proof (cases "currentIndex h < int (length (entries h)) - 1")
    case True
    then have kl: "min ?k (length (entries h)) = ?k" "int ?k = currentIndex h + 1"
      using assms by auto
    have sp: "splice_from (currentIndex h + 1) (entries h) = (take ?k (entries h), drop ?k (entries h))"
      using assms by (simp add: splice_from_nonneg)
    show ?thesis
      using assms True sp kl
      by (cases h) (simp add: record_entry_def appended_def new_entry_def Let_def)
  next
    case False
    then have kl: "min ?k (length (entries h)) = length (entries h)"
      by auto
    from False have td: "take ?k (entries h) = entries h" "drop ?k (entries h) = []"
      by auto
    show ?thesis using assms False td kl
      by (cases h) (simp add: record_entry_def appended_def new_entry_def Let_def)
  qed
qed

lemma record_entry_result:
  assumes "isRecording h" "- 1 \<le> currentIndex h" "0 \<le> maxEntries h"
  shows "record_entry a d doc uuid now h =
     Some (evicted (nat (int (length (entries (appended a d doc uuid now h))) - maxEntries h))
             (appended a d doc uuid now h))"
proof -
  have "maxEntries (appended a d doc uuid now h) = maxEntries h"
    by (simp add: appended_def)
  then show ?thesis
    using assms by (simp add: record_entry_appended evict_loop_evicted)
qed

subsection \<open>Undo against the algorithm of the specification\<close>

lemma snapshot_of_entry_in_range:
  "0 \<le> i \<Longrightarrow> i < int (length (entries h)) \<Longrightarrow> snapshot_of_entry h i = Inr (snapshot_at h i)"
  by (simp add: snapshot_of_entry_def entry_at_def snapshot_at_def split: option.splits)

lemma snapshot_at_cursor_update [simp]:
  "snapshot_at (h\<lparr>currentIndex := j\<rparr>) i = snapshot_at h i"
  by (simp add: snapshot_at_def)

lemma snapshot_of_entry_cursor_update [simp]:
  "snapshot_of_entry (h\<lparr>currentIndex := j\<rparr>) i = snapshot_of_entry h i"
  by (simp add: snapshot_of_entry_def split: option.splits)

lemma snapshot_at_Some:
  assumes "history_ok h" "0 \<le> i" "i < int (length (entries h))"
  shows "snapshot_at h i \<noteq> None"
proof -
  have "entries h ! nat i \<in> set (entries h)" using assms by simp
  then have "snapshots h (entry_id (entries h ! nat i)) \<noteq> None"
    using assms(1) by (simp add: history_ok_def list_all_iff)
  then show ?thesis by (simp add: snapshot_at_def)
qed

text \<open>
  Claim C3. \<open>undo_spec\<close> is the algorithm in the words of the specification:
  nothing happens below index 0; otherwise \<open>target = max(0, currentIndex - steps)\<close>,
  and the cursor moves to \<open>target - 1\<close> and the snapshot stored there is returned
  when \<open>target > 0\<close>, or the cursor moves to \<open>-1\<close> and the snapshot of entry 0
  is returned when \<open>target = 0\<close>. On every history whose cursor lies within its
  entries, each of which has its snapshot, and for every \<open>steps \<ge> 1\<close>, the method
  \<open>undo\<close> returns exactly what \<open>undo_spec\<close> computes, without throwing; with the
  cursor below 0 it returns \<open>null\<close> and leaves the history as it was, and with the
  cursor at 0 or above the value returned is a snapshot, not \<open>null\<close>.
\<close>

theorem undo_refines_spec:
  assumes "history_ok h" and "1 \<le> steps"
  shows "undo steps h = (Inr (fst (undo_spec steps h)), snd (undo_spec steps h)) \<and>
         (currentIndex h < 0 \<longrightarrow> undo steps h = (Inr None, h)) \<and>
         (0 \<le> currentIndex h \<longrightarrow> fst (undo_spec steps h) \<noteq> None)"
proof (cases "currentIndex h < 0")
  case True
  then show ?thesis by (simp add: undo_def undo_spec_def canUndo_def)
next
  case False
  let ?t = "max 0 (currentIndex h - steps)"
  have len: "currentIndex h < int (length (entries h))"
    using assms(1) by (simp add: history_ok_def)
  show ?thesis
  proof (cases "?t > 0")
    case True
    then have r: "0 \<le> ?t - 1" "?t - 1 < int (length (entries h))"
      using len assms(2) by auto
    have "snapshot_at h (?t - 1) \<noteq> None"
      using assms(1) r by (rule snapshot_at_Some)
    then show ?thesis
      using False True r
      by (simp add: undo_def undo_spec_def canUndo_def Let_def snapshot_of_entry_in_range)
  next
    case t0: False
    have r: "(0::int) \<le> 0" "0 < int (length (entries h))"
      using len False by auto
    have "snapshot_at h 0 \<noteq> None"
      using assms(1) r by (rule snapshot_at_Some)
    then show ?thesis
      using False t0 r
      by (simp add: undo_def undo_spec_def canUndo_def Let_def snapshot_of_entry_in_range)
  qed
qed

subsection \<open>The reachable states of the history\<close>

text \<open>
  \<open>history_ok\<close> holds of a new history and is kept by every method: by
  \<open>record\<close> when \<open>maxEntries\<close> is not negative and the identifier drawn is not
  in use, by \<open>undo\<close> and \<open>redo\<close> for a positive number of steps, by \<open>goto\<close>
  and by \<open>clear\<close>.
\<close>

lemma history_ok_new: "history_ok (new_HistoryManager k)"
  by (simp add: history_ok_def new_HistoryManager_def)

lemma history_ok_cursor:
  "history_ok h \<Longrightarrow> - 1 \<le> j \<Longrightarrow> j < int (length (entries h)) \<Longrightarrow> history_ok (h\<lparr>currentIndex := j\<rparr>)"
  by (simp add: history_ok_def)

lemma history_ok_undo:
  assumes "history_ok h" "1 \<le> steps"
  shows "history_ok (snd (undo steps h))"
proof (cases "canUndo h")
  case False
  then show ?thesis using assms by (simp add: undo_def)
next
  case True
  then have c: "0 \<le> currentIndex h" "currentIndex h < int (length (entries h))"
    using assms(1) by (simp_all add: canUndo_def history_ok_def)
  show ?thesis
  proof (cases "max 0 (currentIndex h - steps) > 0")
    case t: True
    then have "snd (undo steps h) = h\<lparr>currentIndex := max 0 (currentIndex h - steps) - 1\<rparr>"
      using True by (simp add: undo_def Let_def)
    moreover have "- 1 \<le> max 0 (currentIndex h - steps) - 1"
      "max 0 (currentIndex h - steps) - 1 < int (length (entries h))"
      using c assms(2) by auto
    ultimately show ?thesis using assms(1) by (simp add: history_ok_cursor)
  next
    case f: False
    then have "snd (undo steps h) = h\<lparr>currentIndex := - 1\<rparr>"
      using True by (simp add: undo_def Let_def)
    then show ?thesis using assms(1) c by (simp add: history_ok_cursor)
  qed
qed

lemma history_ok_redo:
  assumes "history_ok h" "1 \<le> steps"
  shows "history_ok (snd (redo steps h))"
proof (cases "canRedo h")
  case False
  then show ?thesis using assms by (simp add: redo_def)
next
  case True
  let ?t = "min (int (length (entries h)) - 1) (currentIndex h + steps)"
  have "snd (redo steps h) = h\<lparr>currentIndex := ?t\<rparr>"
    using True by (simp add: redo_def Let_def)
  moreover have "- 1 \<le> ?t" "?t < int (length (entries h))"
    using assms True by (auto simp: history_ok_def canRedo_def)
  ultimately show ?thesis using assms(1) by (simp add: history_ok_cursor)
qed

lemma history_ok_goto: "history_ok h \<Longrightarrow> history_ok (snd (goto k h))"
  by (auto simp: goto_def Let_def history_ok_cursor)

lemma history_ok_clear: "history_ok (clear h)"
  by (simp add: history_ok_def clear_def)

lemma history_ok_record:
  assumes ok: "history_ok h" and mx: "0 \<le> maxEntries h"
    and fresh: "generateUUID (Some ''history'') uuid \<notin> entry_id ` set (entries h)"
  shows "\<exists>h'. record_entry a d doc uuid now h = Some h' \<and> history_ok h'"
proof (cases "isRecording h")
  case False
  then show ?thesis using ok by (simp add: record_entry_paused)
next
  case True
  let ?new = "generateUUID (Some ''history'') uuid"
  let ?k = "nat (currentIndex h + 1)"
  define ap where "ap = appended a d doc uuid now h"
  define n where "n = nat (int (length (entries ap)) - maxEntries h)"
  define h' where "h' = evicted n ap"
  have c: "- 1 \<le> currentIndex h" "currentIndex h < int (length (entries h))"
    using ok by (simp_all add: history_ok_def)
  have kl: "?k \<le> length (entries h)" using c by linarith
  have r: "record_entry a d doc uuid now h = Some h'"
    unfolding h'_def n_def ap_def using True c(1) mx by (rule record_entry_result)
  have eap: "entries ap = take ?k (entries h) @ [new_entry a d uuid now]"
    by (simp add: ap_def appended_def)
  have sap: "snapshots ap = (delete_snapshots (drop ?k (entries h)) (snapshots h))
       (?new \<mapsto> \<lparr>snap_document = doc, snap_timestamp = now\<rparr>)"
    by (simp add: ap_def appended_def)
  have cap: "currentIndex ap = int ?k"
    using kl by (simp add: ap_def appended_def min_def)
  have lap: "length (entries ap) = ?k + 1"
    using kl by (simp add: eap min_def)
  have nle: "n \<le> ?k + 1"
    using mx unfolding n_def lap by linarith
  have dist: "distinct (map entry_id (entries h))"
    using ok by (simp add: history_ok_def)
  have "distinct (map entry_id (take ?k (entries h)))"
    using dist by (simp add: distinct_take take_map [symmetric])
  moreover have "?new \<notin> entry_id ` set (take ?k (entries h))"
    using fresh set_take_subset [of ?k "entries h"] by blast
  ultimately have dap: "distinct (map entry_id (entries ap))"
    by (simp add: eap new_entry_def)
  have snap_ap: "snapshots ap (entry_id e) \<noteq> None" if e: "e \<in> set (entries ap)" for e
  proof (cases "entry_id e = ?new")
    case True
    then show ?thesis by (simp add: sap)
  next
    case False
    then have et: "e \<in> set (take ?k (entries h))"
      using e by (auto simp: eap new_entry_def)
    then have "e \<in> set (entries h)" using set_take_subset [of ?k "entries h"] by blast
    then have s: "snapshots h (entry_id e) \<noteq> None"
      using ok by (simp add: history_ok_def list_all_iff)
    have "distinct (map entry_id (take ?k (entries h) @ drop ?k (entries h)))"
      using dist by (simp only: append_take_drop_id)
    then have "entry_id ` set (take ?k (entries h)) \<inter> entry_id ` set (drop ?k (entries h)) = {}"
      by (simp only: map_append distinct_append set_map)
    then have "entry_id e \<notin> entry_id ` set (drop ?k (entries h))"
      using et by blast
    then show ?thesis using False s by (simp add: sap delete_snapshots_apply)
  qed
  have eh': "entries h' = drop n (entries ap)"
    by (simp add: h'_def evicted_def)
  have "distinct (map entry_id (take n (entries ap) @ drop n (entries ap)))"
    using dap by (simp only: append_take_drop_id)
  then have disj: "entry_id ` set (take n (entries ap)) \<inter> entry_id ` set (drop n (entries ap)) = {}"
    and dh': "distinct (map entry_id (drop n (entries ap)))"
    by (simp_all only: map_append distinct_append set_map)
  have snap_h': "snapshots h' (entry_id e) \<noteq> None" if e: "e \<in> set (entries h')" for e
  proof -
    have "e \<in> set (entries ap)" using e set_drop_subset [of n "entries ap"] by (auto simp: eh')
    then have "snapshots ap (entry_id e) \<noteq> None" by (rule snap_ap)
    moreover have "entry_id e \<notin> entry_id ` set (take n (entries ap))"
      using disj e by (auto simp: eh')
    ultimately show ?thesis by (simp add: h'_def evicted_def delete_snapshots_apply)
  qed
  have ch': "currentIndex h' = int ?k - int n"
    by (simp add: h'_def evicted_def cap)
  have lh': "int (length (entries h')) = int ?k + 1 - int n"
    using nle by (simp add: eh' lap)
  have "history_ok h'"
    unfolding history_ok_def using ch' lh' nle dh' snap_h'
    by (simp add: eh' list_all_iff)
  then show ?thesis using r by blast
qed

subsection \<open>The scenario, evaluated\<close>

lemma generateId_fresh_table:
  "generateId p Map.empty = (p @ ''-1'', Map.empty(p \<mapsto> 1))"
  by (simp add: generateId_def js_increment_def counter_falsy_def counter_value_def string_of_int_def string_of_nat_one_digit digit_char_def Let_def)

lemma scenario_canvas_eq:
  "scenario_canvas =
     (\<lparr>document = \<lparr>doc_config = defaultConfig, doc_defs = emptyDefs, doc_elements = []\<rparr>,
       filePath = None, isDirty = False, rawDefs = [], rawElements = [],
       emitted = [\<lparr>ev_type = CanvasChanged, ev_elementId = None\<rparr>]\<rparr>, Map.empty)"
  by (simp add: scenario_canvas_def new_SVGDocumentManager_def createEmptyDocument_def create_def
      resetCounters_def spread_config_def spread_key_def defaultConfig_def no_create_options_def emit_def)

lemma document_0_eq:
  "document_0 = \<lparr>doc_config = defaultConfig, doc_defs = emptyDefs, doc_elements = []\<rparr>"
  by (simp add: document_0_def SVGDocumentManager_toJSON_def scenario_canvas_eq)

lemma document_rect_eq:
  "document_rect = \<lparr>doc_config = defaultConfig, doc_defs = emptyDefs, doc_elements = [the_rect]\<rparr>"
  by (simp add: document_rect_def SVGDocumentManager_toJSON_def scenario_rect_def scenario_canvas_eq
      createRect_def id_or_generate_def no_options_def generateId_fresh_table addElement_def emit_def
      the_rect_def)

lemma document_both_eq:
  "document_both = \<lparr>doc_config = defaultConfig, doc_defs = emptyDefs, doc_elements = [the_rect, the_circle]\<rparr>"
  by (simp add: document_both_def SVGDocumentManager_toJSON_def scenario_circle_def scenario_rect_def scenario_canvas_eq
      createRect_def createCircle_def id_or_generate_def no_options_def generateId_def js_increment_def counter_falsy_def counter_value_def string_of_int_def string_of_nat_one_digit digit_char_def Let_def addElement_def emit_def
      the_rect_def the_circle_def)

subsection \<open>Undo and redo around the earliest entry\<close>

lemma record_entry_on_empty:
  assumes "entries h = []" "currentIndex h = - 1" "isRecording h" "1 \<le> maxEntries h"
  shows "record_entry a d doc uuid now h =
     Some (h\<lparr>entries := [new_entry a d uuid now],
             snapshots := (snapshots h)(generateUUID (Some ''history'') uuid \<mapsto>
                \<lparr>snap_document = doc, snap_timestamp = now\<rparr>),
             currentIndex := 0\<rparr>)"
proof -
  have "record_entry a d doc uuid now h = evict_loop (appended a d doc uuid now h)"
    using assms by (simp add: record_entry_appended)
  also have "\<dots> = Some (appended a d doc uuid now h)"
    using assms by (intro evict_loop_done) (simp add: appended_def)
  finally show ?thesis using assms by (simp add: appended_def)
qed

lemma record_entry_at_tail:
  assumes "currentIndex h = int (length (entries h)) - 1" "isRecording h"
    "int (length (entries h)) < maxEntries h"
  shows "record_entry a d doc uuid now h =
     Some (h\<lparr>entries := entries h @ [new_entry a d uuid now],
             snapshots := (snapshots h)(generateUUID (Some ''history'') uuid \<mapsto>
                \<lparr>snap_document = doc, snap_timestamp = now\<rparr>),
             currentIndex := int (length (entries h))\<rparr>)"
proof -
  have "record_entry a d doc uuid now h = evict_loop (appended a d doc uuid now h)"
    using assms by (simp add: record_entry_appended)
  also have "\<dots> = Some (appended a d doc uuid now h)"
    using assms by (intro evict_loop_done) (simp add: appended_def)
  finally show ?thesis using assms by (simp add: appended_def nat_diff_distrib')
qed

text \<open>
  Claim C1, as amended. The history stores a snapshot of the state after each
  mutation and nothing of the state before the first one. So on an empty history
  that records and keeps at least two entries: after recording a mutation whose
  state is \<open>D1\<close>, \<open>undo()\<close> returns \<open>D1\<close>, the earliest snapshot there is,
  and puts the cursor on \<open>-1\<close>, and the \<open>redo()\<close> immediately after it
  returns \<open>D1\<close> and restores the history; and after recording a second mutation
  (the two entries having different identifiers) one \<open>undo()\<close> returns the
  state after the first mutation, \<open>D1\<close>: in the scenario, the document with
  exactly the rectangle.
\<close>

theorem undo_redo_earliest_snapshot:
  assumes "entries h = []" and "currentIndex h = - 1" and "isRecording h"
    and "2 \<le> maxEntries h" and "uuid1 \<noteq> uuid2"
  shows "\<exists>h1 h2.
     record_entry a1 d1 D1 uuid1 t1 h = Some h1 \<and>
     undo 1 h1 = (Inr (Some D1), h1\<lparr>currentIndex := - 1\<rparr>) \<and>
     redo 1 (snd (undo 1 h1)) = (Inr (Some D1), h1) \<and>
     record_entry a2 d2 D2 uuid2 t2 h1 = Some h2 \<and>
     undo 1 h2 = (Inr (Some D1), h2\<lparr>currentIndex := - 1\<rparr>)"
proof -
  let ?i1 = "generateUUID (Some ''history'') uuid1"
  let ?i2 = "generateUUID (Some ''history'') uuid2"
  define h1 where "h1 = h\<lparr>entries := [new_entry a1 d1 uuid1 t1],
     snapshots := (snapshots h)(?i1 \<mapsto> \<lparr>snap_document = D1, snap_timestamp = t1\<rparr>),
     currentIndex := 0\<rparr>"
  define h2 where "h2 = h1\<lparr>entries := entries h1 @ [new_entry a2 d2 uuid2 t2],
     snapshots := (snapshots h1)(?i2 \<mapsto> \<lparr>snap_document = D2, snap_timestamp = t2\<rparr>),
     currentIndex := int (length (entries h1))\<rparr>"
  have ne: "?i1 \<noteq> ?i2"
    using assms(5) by (simp add: generateUUID_def)
  have r1: "record_entry a1 d1 D1 uuid1 t1 h = Some h1"
    unfolding h1_def using assms by (intro record_entry_on_empty) auto
  have r2: "record_entry a2 d2 D2 uuid2 t2 h1 = Some h2"
    unfolding h2_def using assms by (intro record_entry_at_tail) (auto simp: h1_def)
  have u1: "undo 1 h1 = (Inr (Some D1), h1\<lparr>currentIndex := - 1\<rparr>)"
    by (simp add: undo_def canUndo_def h1_def snapshot_of_entry_def entry_at_def new_entry_def)
  have rd: "redo 1 (h1\<lparr>currentIndex := - 1\<rparr>) = (Inr (Some D1), h1)"
    by (simp add: redo_def canRedo_def h1_def snapshot_of_entry_def entry_at_def new_entry_def)
  have u2: "undo 1 h2 = (Inr (Some D1), h2\<lparr>currentIndex := - 1\<rparr>)"
    using ne by (simp add: undo_def canUndo_def h2_def h1_def snapshot_of_entry_def entry_at_def new_entry_def)
  show ?thesis using r1 r2 u1 rd u2 by auto
qed

lemma history_1_recorded:
  "record_entry ''draw_rect'' ''rectangle'' document_rect ''u1'' 1000 (new_HistoryManager None) = Some history_1"
  by (simp add: record_entry_on_empty new_HistoryManager_def history_1_def generateUUID_def)

lemma history_2_recorded:
  "record_entry ''draw_circle'' ''circle'' document_both ''u2'' 2000 history_1 = Some history_2"
  by (simp add: record_entry_at_tail history_1_def history_2_def generateUUID_def)

lemma history_3_recorded:
  "record_entry ''canvas_background'' ''background'' document_0 ''u3'' 3000 history_2 = Some history_3"
  by (simp add: record_entry_at_tail history_2_def history_3_def generateUUID_def)

lemma history_3_ok: "history_ok history_3"
  by (simp add: history_ok_def history_3_def new_entry_def generateUUID_def)

theorem undo_refines_spec_witness:
  "history_ok history_3 \<and> (1::int) \<le> 1 \<and>
   undo 1 history_3 = (Inr (Some document_rect), history_3\<lparr>currentIndex := 0\<rparr>) \<and>
   undo_spec 1 history_3 = (Some document_rect, history_3\<lparr>currentIndex := 0\<rparr>)"
proof -
  have s: "undo_spec 1 history_3 = (Some document_rect, history_3\<lparr>currentIndex := 0\<rparr>)"
    by (simp add: undo_spec_def snapshot_at_def history_3_def new_entry_def generateUUID_def)
  show ?thesis
    using undo_refines_spec [OF history_3_ok, of 1] s history_3_ok by simp
qed

lemma document_0_not_rect: "document_0 \<noteq> document_rect"
  by (simp add: document_0_eq document_rect_eq)

text \<open>
  The claim as the specification words it asks \<open>undo()\<close> for the state before
  the recorded mutation. In the scenario the canvas without the rectangle is
  \<open>document_0\<close>; the history after recording the rectangle returns something else.
\<close>

theorem undo_returns_recorded_state_counterexample:
  "record_entry ''draw_rect'' ''rectangle'' document_rect ''u1'' 1000 (new_HistoryManager None) = Some history_1 \<and>
   fst (undo 1 history_1) \<noteq> Inr (Some document_0)"
proof -
  have "fst (undo 1 history_1) = Inr (Some document_rect)"
    by (simp add: undo_def canUndo_def history_1_def snapshot_of_entry_def entry_at_def new_entry_def generateUUID_def)
  then show ?thesis
    using history_1_recorded document_0_not_rect by auto
qed

theorem undo_redo_earliest_snapshot_witness:
  "entries (new_HistoryManager None) = [] \<and> currentIndex (new_HistoryManager None) = - 1 \<and>
   isRecording (new_HistoryManager None) \<and> 2 \<le> maxEntries (new_HistoryManager None) \<and>
   ''u1'' \<noteq> ''u2'' \<and>
   undo 1 history_1 = (Inr (Some document_rect), history_1\<lparr>currentIndex := - 1\<rparr>) \<and>
   redo 1 (snd (undo 1 history_1)) = (Inr (Some document_rect), history_1) \<and>
   undo 1 history_2 = (Inr (Some document_rect), history_2\<lparr>currentIndex := - 1\<rparr>) \<and>
   doc_elements document_rect = [the_rect]"
proof -
  have pre: "entries (new_HistoryManager None) = []" "currentIndex (new_HistoryManager None) = - 1"
    "isRecording (new_HistoryManager None)" "2 \<le> maxEntries (new_HistoryManager None)"
    "''u1'' \<noteq> ''u2''"
    by (simp_all add: new_HistoryManager_def)
  from undo_redo_earliest_snapshot [OF pre,
      of "''draw_rect''" "''rectangle''" document_rect 1000 "''draw_circle''" "''circle''" document_both 2000]
  obtain h1 h2 where
    "record_entry ''draw_rect'' ''rectangle'' document_rect ''u1'' 1000 (new_HistoryManager None) = Some h1"
    "undo 1 h1 = (Inr (Some document_rect), h1\<lparr>currentIndex := - 1\<rparr>)"
    "redo 1 (snd (undo 1 h1)) = (Inr (Some document_rect), h1)"
    "record_entry ''draw_circle'' ''circle'' document_both ''u2'' 2000 h1 = Some h2"
    "undo 1 h2 = (Inr (Some document_rect), h2\<lparr>currentIndex := - 1\<rparr>)"
    by blast
  then have "undo 1 history_1 = (Inr (Some document_rect), history_1\<lparr>currentIndex := - 1\<rparr>)"
    "redo 1 (snd (undo 1 history_1)) = (Inr (Some document_rect), history_1)"
    "undo 1 history_2 = (Inr (Some document_rect), history_2\<lparr>currentIndex := - 1\<rparr>)"
    using history_1_recorded history_2_recorded by auto
  then show ?thesis using pre by (simp add: document_rect_eq)
qed

text \<open>
  The \<open>redo()\<close> that follows the \<open>undo()\<close> of the two-mutation scenario:
  \<open>undo\<close> has left the cursor on \<open>-1\<close> while returning the snapshot of entry 0,
  so \<open>redo\<close> moves to entry 0 and returns the same document once more, the one
  with the rectangle only.
\<close>

lemma redo_after_undo_in_scenario:
  "fst (redo 1 (snd (undo 1 history_2))) = Inr (Some document_rect) \<and>
   currentIndex (snd (redo 1 (snd (undo 1 history_2)))) = 0 \<and>
   document_rect \<noteq> document_both"
  by (simp add: undo_def redo_def canUndo_def canRedo_def history_2_def snapshot_of_entry_def
      entry_at_def new_entry_def generateUUID_def document_rect_eq document_both_eq)

subsection \<open>Bounded retention\<close>

lemma record_entry_tail_step:
  assumes "isRecording h" "currentIndex h = int (length (entries h)) - 1" "0 \<le> maxEntries h"
    "int (length (entries h)) \<le> maxEntries h"
  shows "\<exists>h'. record_entry a d doc uuid now h = Some h' \<and>
     entries h' = drop (length (entries h) + 1 - nat (maxEntries h)) (entries h @ [new_entry a d uuid now]) \<and>
     currentIndex h' = int (length (entries h')) - 1 \<and> isRecording h' \<and>
     maxEntries h' = maxEntries h \<and> int (length (entries h')) \<le> maxEntries h'"
proof -
  let ?ap = "appended a d doc uuid now h"
  let ?n = "nat (int (length (entries ?ap)) - maxEntries h)"
  have k: "nat (currentIndex h + 1) = length (entries h)"
    using assms(2) by simp
  have e: "entries ?ap = entries h @ [new_entry a d uuid now]"
    by (simp add: appended_def k)
  have c: "currentIndex ?ap = int (length (entries h))"
    by (simp add: appended_def k)
  have n: "?n = length (entries h) + 1 - nat (maxEntries h)"
    using assms(3) by (simp add: e nat_diff_distrib' nat_add_distrib)
  have r: "record_entry a d doc uuid now h = Some (evicted ?n ?ap)"
    using assms by (intro record_entry_result) auto
  have "entries (evicted ?n ?ap) = drop ?n (entries h @ [new_entry a d uuid now])"
    by (simp add: evicted_def e)
  moreover have "currentIndex (evicted ?n ?ap) = int (length (entries (evicted ?n ?ap))) - 1"
    using assms(3,4) by (simp add: evicted_def e c n del: drop_append) 
  moreover have "isRecording (evicted ?n ?ap)" "maxEntries (evicted ?n ?ap) = maxEntries h"
    using assms(1) by (simp_all add: evicted_def appended_def)
  moreover have "int (length (entries (evicted ?n ?ap))) \<le> maxEntries h"
    using assms(3,4) by (simp add: evicted_def e n del: drop_append)
  ultimately show ?thesis using r n by (auto simp del: drop_append)
qed

lemma drop_append_short: "n \<le> length xs \<Longrightarrow> drop n (xs @ ys) = drop n xs @ ys"
  by simp

lemma record_all_tail:
  assumes "isRecording h" "currentIndex h = int (length (entries h)) - 1" "0 \<le> maxEntries h"
    "int (length (entries h)) \<le> maxEntries h"
  shows "\<exists>h'. record_all cs h = Some h' \<and>
     entries h' = drop (length (entries h) + length cs - nat (maxEntries h)) (entries h @ map entry_of_call cs) \<and>
     currentIndex h' = int (length (entries h')) - 1 \<and> maxEntries h' = maxEntries h"
  using assms
proof (induction cs arbitrary: h)
  case Nil
  then show ?case by simp
next
  case (Cons c cs)
  let ?e = "entry_of_call c"
  have "\<exists>h1. record_entry (rc_action c) (rc_description c) (rc_document c) (rc_uuid c) (rc_now c) h = Some h1 \<and>
     entries h1 = drop (length (entries h) + 1 - nat (maxEntries h)) (entries h @ [?e]) \<and>
     currentIndex h1 = int (length (entries h1)) - 1 \<and> isRecording h1 \<and>
     maxEntries h1 = maxEntries h \<and> int (length (entries h1)) \<le> maxEntries h1"
    unfolding entry_of_call_def by (rule record_entry_tail_step [OF Cons.prems])
  then obtain h1 where h1: "record_entry (rc_action c) (rc_description c) (rc_document c) (rc_uuid c) (rc_now c) h = Some h1"
    "entries h1 = drop (length (entries h) + 1 - nat (maxEntries h)) (entries h @ [?e])"
    "currentIndex h1 = int (length (entries h1)) - 1" "isRecording h1"
    "maxEntries h1 = maxEntries h" "int (length (entries h1)) \<le> maxEntries h1"
    by blast
  have m1: "0 \<le> maxEntries h1" using Cons.prems(3) h1(5) by simp
  from Cons.IH [OF h1(4) h1(3) m1 h1(6)]
  obtain h' where h': "record_all cs h1 = Some h'"
    "entries h' = drop (length (entries h1) + length cs - nat (maxEntries h1)) (entries h1 @ map entry_of_call cs)"
    "currentIndex h' = int (length (entries h')) - 1" "maxEntries h' = maxEntries h1"
    by blast
  let ?n1 = "length (entries h) + 1 - nat (maxEntries h)"
  let ?X = "entries h @ ?e # map entry_of_call cs"
  let ?a = "length (entries h1) + length cs - nat (maxEntries h)"
  have n1: "?n1 \<le> length (entries h @ [?e])" by simp
  have l1: "length (entries h1) = length (entries h) + 1 - ?n1"
    by (simp add: h1(2) del: drop_append)
  have lk: "length (entries h) \<le> nat (maxEntries h)"
    using Cons.prems(3,4) by linarith
  have "drop ?n1 ((entries h @ [?e]) @ map entry_of_call cs) = drop ?n1 (entries h @ [?e]) @ map entry_of_call cs"
    using n1 by (rule drop_append_short)
  then have A: "entries h1 @ map entry_of_call cs = drop ?n1 ?X"
    by (simp only: h1(2) append_assoc append_Cons append_Nil)
  have "entries h' = drop ?a (entries h1 @ map entry_of_call cs)"
    by (simp only: h'(2) h1(5))
  then have "entries h' = drop (?a + ?n1) ?X"
    by (simp only: A drop_drop)
  moreover have "?a + ?n1 = length (entries h) + length (c # cs) - nat (maxEntries h)"
    using l1 lk by (simp only: list.size length_Cons) arith
  ultimately have "entries h' = drop (length (entries h) + length (c # cs) - nat (maxEntries h))
      (entries h @ map entry_of_call (c # cs))"
    by (simp only: list.map)
  moreover have "record_all (c # cs) h = Some h'"
    using h1(1) h'(1) by simp
  moreover have "maxEntries h' = maxEntries h"
    using h'(4) h1(5) by simp
  ultimately show ?case using h'(3) by blast
qed

text \<open>
  Claim C5. With \<open>maxEntries = k \<ge> 1\<close>, recording \<open>k + 5\<close> actions into a new
  history returns every time and leaves exactly \<open>k\<close> entries: those of the last
  \<open>k\<close> calls in their order, the first five being gone; \<open>currentIndex\<close> is
  \<open>k - 1\<close> and the entry there is the one of the last call.
\<close>

theorem history_bound_keeps_latest:
  assumes "1 \<le> k" and "length calls = nat k + 5"
  shows "\<exists>h'. record_all calls (new_HistoryManager (Some k)) = Some h' \<and>
     length (entries h') = nat k \<and>
     entries h' = drop 5 (map entry_of_call calls) \<and>
     currentIndex h' = k - 1 \<and>
     entry_at (entries h') (currentIndex h') = Some (entry_of_call (last calls))"
proof -
  let ?h = "new_HistoryManager (Some k)"
  have pre: "isRecording ?h" "currentIndex ?h = int (length (entries ?h)) - 1"
    "0 \<le> maxEntries ?h" "int (length (entries ?h)) \<le> maxEntries ?h"
    using assms(1) by (simp_all add: new_HistoryManager_def)
  from record_all_tail [OF pre, of calls]
  obtain h' where h': "record_all calls ?h = Some h'"
    "entries h' = drop (length (entries ?h) + length calls - nat (maxEntries ?h)) (entries ?h @ map entry_of_call calls)"
    "currentIndex h' = int (length (entries h')) - 1"
    by blast
  have d: "length (entries ?h) + length calls - nat (maxEntries ?h) = 5"
    using assms by (simp add: new_HistoryManager_def)
  have e: "entries h' = drop 5 (map entry_of_call calls)"
    by (simp only: h'(2) d) (simp add: new_HistoryManager_def)
  have l: "length (entries h') = nat k"
    using assms(2) by (simp add: e)
  have c: "currentIndex h' = k - 1"
    using assms(1) by (simp add: h'(3) l)
  have ne: "calls \<noteq> []" using assms(2) by auto
  have "entries h' \<noteq> []" using l assms(1) by auto
  then have "entries h' ! (nat k - 1) = last (entries h')"
    using l by (simp add: last_conv_nth)
  also have "\<dots> = last (map entry_of_call calls)"
    using assms by (simp add: e)
  also have "\<dots> = entry_of_call (last calls)"
    using ne by (simp add: last_map)
  finally have "entry_at (entries h') (currentIndex h') = Some (entry_of_call (last calls))"
    using assms(1) by (simp add: entry_at_def c l nat_diff_distrib')
  then show ?thesis using h'(1) l e c by blast
qed

theorem history_bound_keeps_latest_witness:
  "(1::int) \<le> 1 \<and> length six_calls = nat 1 + 5 \<and>
   (\<exists>h'. record_all six_calls (new_HistoryManager (Some 1)) = Some h' \<and>
      entries h' = [entry_of_call (example_call ''f'')] \<and> currentIndex h' = 0)"
proof -
  have l: "length six_calls = nat 1 + 5" by (simp add: six_calls_def)
  from history_bound_keeps_latest [OF _ l]
  obtain h' where "record_all six_calls (new_HistoryManager (Some 1)) = Some h'"
    "entries h' = drop 5 (map entry_of_call six_calls)" "currentIndex h' = 1 - 1"
    by auto
  then show ?thesis using l by (auto simp: six_calls_def)
qed

subsection \<open>Recording after an undo\<close>

lemma redo_many_nothing:
  "\<not> canRedo h \<Longrightarrow> redo_many ss h = replicate (length ss) (Inr None)"
  by (induction ss) (simp_all add: redo_def)

lemma undo_one_from_tail:
  assumes "3 \<le> length (entries h)" "currentIndex h = int (length (entries h)) - 1"
  shows "snd (undo 1 h) = h\<lparr>currentIndex := int (length (entries h)) - 3\<rparr>"
  using assms by (auto simp: undo_def canUndo_def Let_def)

text \<open>
  Claim C4. Take a history in one of its reachable states, with at least three
  entries (the last three being those of D0, D1 and D2), the cursor on the last
  one, recording switched on and \<open>maxEntries\<close> not negative. After one
  \<open>undo()\<close> and a \<open>record\<close> of a new state D3 under a fresh identifier, the
  call of \<open>record\<close> returns, \<open>canRedo()\<close> is false, the entry of D2 is no longer
  among the entries, its snapshot is no longer stored, and every run of
  \<open>redo\<close> calls, whatever their step counts, returns \<open>null\<close> each time.
\<close>

theorem record_after_undo_discards_redo:
  assumes ok: "history_ok h" and len: "3 \<le> length (entries h)"
    and tail: "currentIndex h = int (length (entries h)) - 1"
    and rec: "isRecording h" and mx: "0 \<le> maxEntries h"
    and fresh: "generateUUID (Some ''history'') uuid \<notin> entry_id ` set (entries h)"
  shows "\<exists>h'. record_entry a d D3 uuid now (snd (undo 1 h)) = Some h' \<and>
     \<not> canRedo h' \<and>
     entry_id (last (entries h)) \<notin> entry_id ` set (entries h') \<and>
     snapshots h' (entry_id (last (entries h))) = None \<and>
     (\<forall>ss. redo_many ss h' = replicate (length ss) (Inr None))"
proof -
  let ?es = "entries h"
  let ?L = "length ?es"
  let ?new = "generateUUID (Some ''history'') uuid"
  define u where "u = snd (undo 1 h)"
  define ap where "ap = appended a d D3 uuid now u"
  define n where "n = nat (int (length (entries ap)) - maxEntries u)"
  define h' where "h' = evicted n ap"
  have u: "u = h\<lparr>currentIndex := int ?L - 3\<rparr>"
    unfolding u_def using len tail by (rule undo_one_from_tail)
  have k: "nat (currentIndex u + 1) = ?L - 2"
    using len by (simp add: u)
  have eu: "entries u = ?es" "snapshots u = snapshots h" "maxEntries u = maxEntries h"
    "isRecording u = isRecording h"
    by (simp_all add: u)
  have eap: "entries ap = take (?L - 2) ?es @ [new_entry a d uuid now]"
    by (simp add: ap_def appended_def k eu)
  have sap: "snapshots ap = (delete_snapshots (drop (?L - 2) ?es) (snapshots h))
       (?new \<mapsto> \<lparr>snap_document = D3, snap_timestamp = now\<rparr>)"
    by (simp add: ap_def appended_def k eu)
  have cap: "currentIndex ap = int ?L - 2"
    using len by (simp add: ap_def appended_def k eu)
  have lap: "length (entries ap) = ?L - 1"
    using len by (simp add: eap)
  have cu: "- 1 \<le> currentIndex u"
    using len by (simp add: u)
  have r: "record_entry a d D3 uuid now (snd (undo 1 h)) = Some h'"
    unfolding h'_def n_def ap_def u_def [symmetric]
    using rec mx cu by (intro record_entry_result) (simp_all add: eu)
  have nle: "n \<le> ?L - 1"
    using mx len by (simp add: n_def lap eu)
  have eh': "entries h' = drop n (entries ap)"
    by (simp add: h'_def evicted_def)
  have ch': "currentIndex h' = int ?L - 2 - int n"
    by (simp add: h'_def evicted_def cap)
  have "int (length (entries h')) - 1 = int ?L - 2 - int n"
    using nle len by (simp add: eh' lap)
  then have nr: "\<not> canRedo h'"
    by (simp add: canRedo_def ch')
  have dist: "distinct (map entry_id ?es)"
    using ok by (simp add: history_ok_def)
  have ne: "?es \<noteq> []" using len by auto
  have "drop (?L - 2) ?es \<noteq> []" using len by simp
  then have "last (drop (?L - 2) ?es) \<in> set (drop (?L - 2) ?es)"
    by (rule last_in_set)
  moreover have "last (drop (?L - 2) ?es) = last ?es"
    using len by (simp add: last_drop)
  ultimately have lastdrop: "last ?es \<in> set (drop (?L - 2) ?es)"
    by simp
  have "distinct (map entry_id (take (?L - 2) ?es @ drop (?L - 2) ?es))"
    using dist by (simp only: append_take_drop_id)
  then have disj: "entry_id ` set (take (?L - 2) ?es) \<inter> entry_id ` set (drop (?L - 2) ?es) = {}"
    by (simp only: map_append distinct_append set_map) 
  have nottake: "entry_id (last ?es) \<notin> entry_id ` set (take (?L - 2) ?es)"
    using disj lastdrop by blast
  have "last ?es \<in> set ?es" using ne by (rule last_in_set)
  then have "entry_id (last ?es) \<in> entry_id ` set ?es"
    by (rule imageI)
  then have notnew: "entry_id (last ?es) \<noteq> ?new"
    using fresh by metis
  have "set (entries h') \<subseteq> set (entries ap)"
    by (simp add: eh' set_drop_subset)
  then have "entry_id ` set (entries h') \<subseteq> entry_id ` set (take (?L - 2) ?es) \<union> {?new}"
    by (auto simp: eap new_entry_def)
  then have gone: "entry_id (last ?es) \<notin> entry_id ` set (entries h')"
    using nottake notnew by blast
  have "snapshots ap (entry_id (last ?es)) = None"
    using notnew lastdrop by (simp add: sap delete_snapshots_apply)
  then have nosnap: "snapshots h' (entry_id (last ?es)) = None"
    by (simp add: h'_def evicted_def delete_snapshots_apply)
  have "\<forall>ss. redo_many ss h' = replicate (length ss) (Inr None)"
    using nr by (simp add: redo_many_nothing)
  then show ?thesis using r nr gone nosnap by blast
qed

theorem record_after_undo_discards_redo_witness:
  "history_ok history_3 \<and> 3 \<le> length (entries history_3) \<and>
   currentIndex history_3 = int (length (entries history_3)) - 1 \<and>
   isRecording history_3 \<and> 0 \<le> maxEntries history_3 \<and>
   generateUUID (Some ''history'') ''u4'' \<notin> entry_id ` set (entries history_3) \<and>
   (\<exists>h'. record_entry ''draw_line'' ''line'' document_rect ''u4'' 4000 (snd (undo 1 history_3)) = Some h' \<and>
      \<not> canRedo h' \<and> snapshots h' ''history-u3'' = None \<and>
      redo_many [1, 2] h' = [Inr None, Inr None])"
proof -
  have pre: "3 \<le> length (entries history_3)"
    "currentIndex history_3 = int (length (entries history_3)) - 1"
    "isRecording history_3" "0 \<le> maxEntries history_3"
    "generateUUID (Some ''history'') ''u4'' \<notin> entry_id ` set (entries history_3)"
    by (simp_all add: history_3_def new_entry_def generateUUID_def)
  have l: "entry_id (last (entries history_3)) = ''history-u3''"
    by (simp add: history_3_def new_entry_def generateUUID_def)
  from record_after_undo_discards_redo [OF history_3_ok pre, of "''draw_line''" "''line''" document_rect 4000]
  obtain h' where
    "record_entry ''draw_line'' ''line'' document_rect ''u4'' 4000 (snd (undo 1 history_3)) = Some h'"
    "\<not> canRedo h'" "snapshots h' (entry_id (last (entries history_3))) = None"
    "\<forall>ss. redo_many ss h' = replicate (length ss) (Inr None)"
    by blast
  then have "record_entry ''draw_line'' ''line'' document_rect ''u4'' 4000 (snd (undo 1 history_3)) = Some h' \<and>
      \<not> canRedo h' \<and> snapshots h' ''history-u3'' = None \<and>
      redo_many [1, 2] h' = [Inr None, Inr None]"
    by (simp add: l)
  then show ?thesis using history_3_ok pre by blast
qed

section \<open>Properties of the layer manager\<close>

subsection \<open>At least one layer\<close>

lemma findIndex_less: "findIndex P xs = Some k \<Longrightarrow> k < length xs"
  by (induction xs arbitrary: k) (auto split: if_splits)

lemma findIndex_holds: "findIndex P xs = Some k \<Longrightarrow> P (xs ! k)"
  by (induction xs arbitrary: k) (auto split: if_splits)

lemma findIndex_find: "findIndex P xs = None \<longleftrightarrow> List.find P xs = None"
  by (induction xs) auto

lemma length_modify_layer [simp]: "length (modify_layer i f ls) = length ls"
  by (induction ls) auto

lemma modify_layer_eq_Nil [simp]: "modify_layer i f ls = [] \<longleftrightarrow> ls = []"
  by (cases ls) auto

lemma length_remove_at: "k < length xs \<Longrightarrow> length (remove_at k xs) = length xs - 1"
  by (auto simp: remove_at_def)

lemma insert_at_not_Nil [simp]: "insert_at k x xs \<noteq> []"
  by (simp add: insert_at_def)

lemma createLayer_layers: "layers (fst (snd (createLayer n k c lm))) \<noteq> []"
  by (simp add: createLayer_def Let_def split: prod.splits option.splits)

lemma deleteLayer_layers:
  "layers lm \<noteq> [] \<Longrightarrow> layers (snd (deleteLayer i lm)) \<noteq> []"
proof (cases "findIndex (\<lambda>l. layer_id l = i) (layers lm)")
  case None
  then show "layers lm \<noteq> [] \<Longrightarrow> ?thesis" by (simp add: deleteLayer_def)
next
  case (Some index)
  assume ne: "layers lm \<noteq> []"
  have lt: "index < length (layers lm)" using Some by (rule findIndex_less)
  show ?thesis
  proof (cases "length (layers lm) = 1")
    case True
    then show ?thesis using Some ne by (simp add: deleteLayer_def)
  next
    case False
    moreover have "length (layers lm) \<noteq> 0" using ne by simp
    ultimately have "2 \<le> length (layers lm)" by linarith
    then have "length (remove_at index (layers lm)) \<noteq> 0"
      using lt by (simp add: length_remove_at)
    then show ?thesis using Some False by (auto simp: deleteLayer_def Let_def)
  qed
qed

lemma deleteLayer_last:
  assumes "length (layers lm) = 1"
  shows "\<not> success (fst (deleteLayer i lm)) \<and> snd (deleteLayer i lm) = lm \<and>
     (getLayer lm i \<noteq> None \<longrightarrow> message (fst (deleteLayer i lm)) = Some MsgLastLayer)"
proof (cases "findIndex (\<lambda>l. layer_id l = i) (layers lm)")
  case None
  then have "getLayer lm i = None" by (simp add: getLayer_def findIndex_find)
  then show ?thesis using None by (simp add: deleteLayer_def failure_def)
next
  case (Some index)
  then show ?thesis using assms by (simp add: deleteLayer_def failure_def)
qed

lemma length_remove_from_first_holder:
  "remove_from_first_holder e ls = Some (n, ls') \<Longrightarrow> length ls' = length ls"
  by (induction ls arbitrary: n ls') (auto split: if_splits)

lemma apply_op_layers:
  assumes "layers lm \<noteq> []"
  shows "layers (fst (snd (apply_op op (lm, c)))) \<noteq> []"
proof (cases op)
  case (CreateLayer n k)
  then show ?thesis using createLayer_layers [of n k c lm]
    by (simp add: case_prod_beta)
next
  case (DeleteLayer i)
  then show ?thesis using deleteLayer_layers [OF assms, of i]
    by (simp add: case_prod_beta)
next
  case (RenameLayer i n)
  then show ?thesis using assms by (auto simp: renameLayer_def split: option.splits)
next
  case (ReorderLayer i k)
  then show ?thesis using assms by (auto simp: reorderLayer_def Let_def split: option.splits)
next
  case (SetLayerVisibility i v)
  then show ?thesis using assms by (auto simp: setLayerVisibility_def split: option.splits)
next
  case (SetLayerLock i v)
  then show ?thesis using assms by (auto simp: setLayerLock_def split: option.splits)
next
  case (SetLayerOpacity i v)
  then show ?thesis using assms by (auto simp: setLayerOpacity_def split: option.splits)
next
  case (SetLayerBlendMode i v)
  then show ?thesis using assms by (auto simp: setLayerBlendMode_def split: option.splits)
next
  case (SetActiveLayer i)
  then show ?thesis using assms by (auto simp: setActiveLayer_def split: option.splits)
next
  case (AddElementToLayer i e)
  then show ?thesis using assms by (auto simp: addElementToLayer_def Let_def split: option.splits)
next
  case (AddElementToActiveLayer e)
  have "layers (fst (snd (addElementToActiveLayer e c lm))) \<noteq> []"
  proof (cases "getActiveLayer lm")
    case None
    obtain r lm1 c1 where cl: "createLayer None None c lm = (r, lm1, c1)"
      by (cases "createLayer None None c lm") auto
    have ne1: "layers lm1 \<noteq> []" using createLayer_layers [of None None c lm] cl by simp
    then have "layers (snd (addElementToLayer j e lm1)) \<noteq> []" for j
      by (auto simp: addElementToLayer_def Let_def split: option.splits)
    then show ?thesis using None cl ne1
      by (auto simp: addElementToActiveLayer_def case_prod_beta split: option.splits)
  next
    case (Some a)
    then show ?thesis using assms
      by (auto simp: addElementToActiveLayer_def addElementToLayer_def Let_def split: option.splits)
  qed
  then show ?thesis using AddElementToActiveLayer by (simp add: case_prod_beta)
next
  case (RemoveElementFromLayer e)
  then show ?thesis using assms
    by (auto simp: removeElementFromLayer_def split: option.splits dest: length_remove_from_first_holder)
next
  case (MergeLayers s t)
  have "layers (snd (mergeLayers s t lm)) \<noteq> []"
  proof (cases "\<exists>sl tl. getLayer lm s = Some sl \<and> getLayer lm t = Some tl \<and> s \<noteq> t")
    case True
    then obtain sl tl where "getLayer lm s = Some sl" "getLayer lm t = Some tl" "s \<noteq> t" by blast
    moreover have "layers (snd (deleteLayer s (lm\<lparr>layers := ls\<rparr>))) \<noteq> []" if "ls \<noteq> []" for ls
      using that by (intro deleteLayer_layers) simp
    moreover have "modify_layer t f (layers lm) \<noteq> []" for f
      using assms by (cases "layers lm") auto
    ultimately show ?thesis by (simp add: mergeLayers_def Let_def)
  next
    case False
    then show ?thesis using assms
      by (auto simp: mergeLayers_def split: option.splits)
  qed
  then show ?thesis using MergeLayers by (simp add: case_prod_beta)
next
  case (DuplicateLayer i)
  then show ?thesis using assms
    by (auto simp: duplicateLayer_def Let_def case_prod_beta split: option.splits)
next
  case Reset
  then show ?thesis using createLayer_layers [of "Some ''Layer 1''" None c "lm\<lparr>layers := [], activeLayerId := None\<rparr>"]
    by (simp add: reset_def case_prod_beta)
next
  case (FromJSON ls a)
  then show ?thesis
    using createLayer_layers [of "Some ''Layer 1''" None c "lm\<lparr>layers := ls, activeLayerId := a\<rparr>"]
    by (auto simp: LayerManager_fromJSON_def Let_def case_prod_beta)
qed

lemma run_ops_layers:
  "layers (fst s) \<noteq> [] \<Longrightarrow> layers (fst (run_ops ops s)) \<noteq> []"
proof (induction ops arbitrary: s)
  case Nil
  then show ?case by simp
next
  case (Cons op ops)
  obtain lm c where s: "s = (lm, c)" by (cases s)
  have "layers (fst (snd (apply_op op s))) \<noteq> []"
    using Cons.prems unfolding s by (intro apply_op_layers) simp
  then show ?case using Cons.IH by simp
qed

lemma new_LayerManager_layers: "layers (fst (new_LayerManager c)) \<noteq> []"
  using createLayer_layers [of "Some ''Layer 1''" None c "\<lparr>layers = [], activeLayerId = None\<rparr>"]
  by (simp add: new_LayerManager_def)

text \<open>
  Claim C6. When the manager holds exactly one layer, \<open>deleteLayer\<close> fails
  for every identifier and leaves the manager (layers, their contents, the active
  layer) as it was; for the identifier of that layer the message is the one of the
  last layer. And after every sequence of operations of the class on a newly
  constructed manager, the list of layers is not empty.
\<close>

theorem last_layer_protected:
  "(length (layers lm) = 1 \<longrightarrow>
      \<not> success (fst (deleteLayer i lm)) \<and> snd (deleteLayer i lm) = lm \<and>
      (getLayer lm i \<noteq> None \<longrightarrow> message (fst (deleteLayer i lm)) = Some MsgLastLayer)) \<and>
   layers (fst (run_ops ops (new_LayerManager c))) \<noteq> []"
  using deleteLayer_last [of lm i] run_ops_layers [OF new_LayerManager_layers, of ops c]
  by blast

subsection \<open>Single membership\<close>

lemma remove1_all:
  "distinct (concat xss) \<Longrightarrow>
   distinct (concat (map (remove1 e) xss)) \<and> set (concat (map (remove1 e) xss)) = set (concat xss) - {e}"
proof (induction xss)
  case Nil
  then show ?case by simp
next
  case (Cons xs xss)
  then have d: "distinct xs" "distinct (concat xss)" "set xs \<inter> set (concat xss) = {}"
    by auto
  have s: "set (remove1 e xs) = set xs - {e}"
    using d(1) by simp
  from Cons.IH [OF d(2)] have ih:
    "distinct (concat (map (remove1 e) xss))"
    "set (concat (map (remove1 e) xss)) = set (concat xss) - {e}"
    by auto
  have "set (remove1 e xs) \<inter> set (concat (map (remove1 e) xss)) = {}"
    using d(3) unfolding s ih(2) by blast
  then have "distinct (remove1 e xs @ concat (map (remove1 e) xss))"
    using d(1) ih(1) by (simp only: distinct_append distinct_remove1 simp_thms)
  moreover have "set (remove1 e xs @ concat (map (remove1 e) xss)) = set (concat (xs # xss)) - {e}"
    unfolding set_append s ih(2) concat.simps by blast
  ultimately show ?case by (simp only: list.map concat.simps simp_thms)
qed

lemma elements_take_out:
  "map layer_elements (map (take_out e) ls) = map (remove1 e) (map layer_elements ls)"
  by (simp add: take_out_def)

lemma take_out_all:
  "distinct (concat (map layer_elements ls)) \<Longrightarrow>
   distinct (concat (map layer_elements (map (take_out e) ls))) \<and>
   set (concat (map layer_elements (map (take_out e) ls))) = set (concat (map layer_elements ls)) - {e}"
  unfolding elements_take_out by (rule remove1_all)

lemma push_on_first:
  "distinct (concat (map layer_elements ls)) \<Longrightarrow> e \<notin> set (concat (map layer_elements ls)) \<Longrightarrow>
   distinct (concat (map layer_elements (modify_layer i (push_on e) ls)))"
proof (induction ls)
  case Nil
  then show ?case by simp
next
  case (Cons l ls)
  show ?case
  proof (cases "layer_id l = i")
    case True
    then show ?thesis using Cons.prems by (auto simp: push_on_def)
  next
    case False
    have "set (concat (map layer_elements (modify_layer i (push_on e) ls)))
        \<subseteq> set (concat (map layer_elements ls)) \<union> {e}"
      by (induction ls) (auto simp: push_on_def)
    then show ?thesis using Cons False by auto
  qed
qed

lemma addElementToLayer_layers:
  "snd (addElementToLayer i e lm) = lm \<or>
   (success (fst (addElementToLayer i e lm)) \<and>
    layers (snd (addElementToLayer i e lm)) = modify_layer i (push_on e) (map (take_out e) (layers lm)))"
  by (auto simp: addElementToLayer_def Let_def failure_def take_out_def [abs_def] push_on_def [abs_def]
      split: option.splits)

lemma addElementToLayer_distinct:
  assumes "membership_distinct lm"
  shows "membership_distinct (snd (addElementToLayer i e lm))"
proof -
  from take_out_all [of "layers lm" e] assms
  have "distinct (concat (map layer_elements (map (take_out e) (layers lm))))"
    "e \<notin> set (concat (map layer_elements (map (take_out e) (layers lm))))"
    by (auto simp: membership_distinct_def)
  then have "distinct (concat (map layer_elements (modify_layer i (push_on e) (map (take_out e) (layers lm)))))"
    by (rule push_on_first)
  then show ?thesis
    using assms addElementToLayer_layers [of i e lm] by (auto simp: membership_distinct_def)
qed

lemma add_all_distinct:
  "membership_distinct lm \<Longrightarrow> membership_distinct (add_all calls lm)"
  by (induction calls arbitrary: lm) (auto simp: addElementToLayer_distinct)

lemma no_holder:
  "e \<notin> set (concat (map layer_elements ls)) \<Longrightarrow> filter (\<lambda>l. e \<in> set (layer_elements l)) ls = []"
  by (induction ls) auto

lemma distinct_holders:
  "distinct (concat (map layer_elements ls)) \<Longrightarrow>
   length (filter (\<lambda>l. e \<in> set (layer_elements l)) ls) \<le> 1"
proof (induction ls)
  case Nil
  then show ?case by simp
next
  case (Cons l ls)
  show ?case
  proof (cases "e \<in> set (layer_elements l)")
    case True
    then have "e \<notin> set (concat (map layer_elements ls))" using Cons.prems by auto
    then show ?thesis using True by (simp add: no_holder)
  next
    case False
    then show ?thesis using Cons by simp
  qed
qed

lemma holder_after_push:
  "e \<notin> set (concat (map layer_elements ls)) \<Longrightarrow> List.find (\<lambda>l. layer_id l = i) ls \<noteq> None \<Longrightarrow>
   map layer_id (filter (\<lambda>l. e \<in> set (layer_elements l)) (modify_layer i (push_on e) ls)) = [i]"
proof (induction ls)
  case Nil
  then show ?case by simp
next
  case (Cons l ls)
  show ?case
  proof (cases "layer_id l = i")
    case True
    have "filter (\<lambda>l. e \<in> set (layer_elements l)) ls = []"
      using Cons.prems(1) by (intro no_holder) simp
    then show ?thesis using True by (simp add: push_on_def)
  next
    case False
    then show ?thesis using Cons by (auto simp: push_on_def)
  qed
qed

lemma find_take_out:
  "List.find (\<lambda>l. layer_id l = i) (map (take_out e) ls) = map_option (take_out e) (List.find (\<lambda>l. layer_id l = i) ls)"
  by (induction ls) (auto simp: take_out_def)

text \<open>
  Claim C7. Start from a manager in which no element identifier is listed twice
  (a new manager is one, and so is every manager built from it by creating and
  locking layers). After every sequence of \<open>addElementToLayer\<close> calls,
  successful or not, no identifier is listed twice, so every identifier \<open>x\<close>
  is in the membership list of at most one layer. A successful call leaves its
  element in the target layer and in no other; a failed call (unknown or locked
  layer) changes nothing.
\<close>

theorem single_layer_membership:
  assumes "membership_distinct lm"
  shows "membership_distinct (add_all calls lm) \<and>
     length (holders (add_all calls lm) x) \<le> 1 \<and>
     (success (fst (addElementToLayer i e lm)) \<longrightarrow>
        map layer_id (holders (snd (addElementToLayer i e lm)) e) = [i]) \<and>
     (\<not> success (fst (addElementToLayer i e lm)) \<longrightarrow> snd (addElementToLayer i e lm) = lm)"
proof -
  have d: "membership_distinct (add_all calls lm)"
    using assms by (rule add_all_distinct)
  then have h: "length (holders (add_all calls lm) x) \<le> 1"
    unfolding membership_distinct_def holders_def by (rule distinct_holders)
  have f: "\<not> success (fst (addElementToLayer i e lm)) \<longrightarrow> snd (addElementToLayer i e lm) = lm"
    using addElementToLayer_layers [of i e lm] by blast
  have s: "map layer_id (holders (snd (addElementToLayer i e lm)) e) = [i]"
    if ok: "success (fst (addElementToLayer i e lm))"
  proof -
    from ok have found: "getLayer lm i \<noteq> None"
      by (auto simp: addElementToLayer_def failure_def split: option.splits)
    from ok have l: "layers (snd (addElementToLayer i e lm)) = modify_layer i (push_on e) (map (take_out e) (layers lm))"
      by (auto simp: addElementToLayer_def Let_def failure_def take_out_def [abs_def] push_on_def [abs_def]
          split: option.splits if_splits)
    from take_out_all [of "layers lm" e] assms
    have "e \<notin> set (concat (map layer_elements (map (take_out e) (layers lm))))"
      by (auto simp: membership_distinct_def)
    moreover have "List.find (\<lambda>l. layer_id l = i) (map (take_out e) (layers lm)) \<noteq> None"
      using found by (simp add: find_take_out getLayer_def)
    ultimately show ?thesis
      unfolding holders_def l by (rule holder_after_push)
  qed
  show ?thesis using d h f s by blast
qed

subsection \<open>Merging into a locked layer\<close>

lemma find_modify_layer_other:
  "s \<noteq> t \<Longrightarrow> (\<And>l. layer_id (f l) = layer_id l) \<Longrightarrow>
   findIndex (\<lambda>l. layer_id l = s) (modify_layer t f ls) = findIndex (\<lambda>l. layer_id l = s) ls"
  by (induction ls) auto

lemma find_modify_layer_same:
  "(\<And>l. layer_id (f l) = layer_id l) \<Longrightarrow>
   List.find (\<lambda>l. layer_id l = t) (modify_layer t f ls) = map_option f (List.find (\<lambda>l. layer_id l = t) ls)"
  by (induction ls) auto

lemma find_remove_at:
  "k < length ls \<Longrightarrow> \<not> P (ls ! k) \<Longrightarrow> List.find P (remove_at k ls) = List.find P ls"
proof (induction ls arbitrary: k)
  case Nil
  then show ?case by simp
next
  case (Cons l ls)
  show ?case
  proof (cases k)
    case 0
    then show ?thesis using Cons.prems by (simp add: remove_at_def)
  next
    case (Suc j)
    then have "List.find P (remove_at j ls) = List.find P ls"
      using Cons by auto
    then show ?thesis using Suc by (simp add: remove_at_def)
  qed
qed

lemma find_Some_findIndex:
  "List.find P xs = Some x \<Longrightarrow> \<exists>k. findIndex P xs = Some k"
  using findIndex_find [of P xs] by (cases "findIndex P xs") auto

lemma two_found_two_layers:
  assumes "List.find (\<lambda>l. layer_id l = s) ls = Some source" "List.find (\<lambda>l. layer_id l = t) ls = Some target" "s \<noteq> t"
  shows "length ls \<noteq> 1"
proof
  assume "length ls = 1"
  then obtain l where "ls = [l]" by (cases ls) auto
  then show False using assms by (auto split: if_splits)
qed

text \<open>
  Claim C10. For two existing layers with different identifiers and a locked
  target, \<open>mergeLayers\<close> succeeds: the target then holds its own identifiers
  followed by all of the source's, and there is one layer less. On the same
  manager \<open>addElementToLayer\<close> for the locked target fails with the message of
  the locked layer and changes nothing.
\<close>

theorem merge_ignores_target_lock:
  assumes src: "getLayer lm s = Some source" and tgt: "getLayer lm t = Some target"
    and diff: "s \<noteq> t" and locked: "layer_locked target"
  shows "success (fst (mergeLayers s t lm)) \<and>
     getLayer (snd (mergeLayers s t lm)) t =
       Some (target\<lparr>layer_elements := layer_elements target @ layer_elements source\<rparr>) \<and>
     length (layers (snd (mergeLayers s t lm))) = length (layers lm) - 1 \<and>
     \<not> success (fst (addElementToLayer t e lm)) \<and>
     message (fst (addElementToLayer t e lm)) = Some MsgLockedLayer \<and>
     snd (addElementToLayer t e lm) = lm"
proof -
  let ?f = "\<lambda>l. l\<lparr>layer_elements := layer_elements l @ layer_elements source\<rparr>"
  let ?ls = "modify_layer t ?f (layers lm)"
  let ?lm1 = "lm\<lparr>layers := ?ls\<rparr>"
  have m: "mergeLayers s t lm = deleteLayer s ?lm1"
    using src tgt diff by (simp add: mergeLayers_def)
  obtain k where k0: "findIndex (\<lambda>l. layer_id l = s) (layers lm) = Some k"
    using src find_Some_findIndex unfolding getLayer_def by fastforce
  have k: "findIndex (\<lambda>l. layer_id l = s) ?ls = Some k"
    using diff k0 by (simp add: find_modify_layer_other)
  have klt: "k < length ?ls" using k by (rule findIndex_less)
  have kid: "layer_id (?ls ! k) = s" using k by (rule findIndex_holds)
  have n1: "length ?ls \<noteq> 1"
    using two_found_two_layers src tgt diff unfolding getLayer_def by fastforce
  have ft: "List.find (\<lambda>l. layer_id l = t) ?ls = Some (?f target)"
    using tgt by (simp add: find_modify_layer_same getLayer_def)
  have "List.find (\<lambda>l. layer_id l = t) (remove_at k ?ls) = List.find (\<lambda>l. layer_id l = t) ?ls"
    using klt kid diff by (intro find_remove_at) auto
  then have g: "List.find (\<lambda>l. layer_id l = t) (remove_at k ?ls) = Some (?f target)"
    using ft by simp
  have d: "deleteLayer s ?lm1 =
      (\<lparr>success = True, layerId = None, message = Some (MsgDeleted (layer_name (?ls ! k)))\<rparr>,
       (if activeLayerId lm = Some s
        then lm\<lparr>layers := remove_at k ?ls,
                activeLayerId := id_at_or_null (remove_at k ?ls) (min k (length (remove_at k ?ls) - 1))\<rparr>
        else lm\<lparr>layers := remove_at k ?ls\<rparr>))"
    using k n1 by (simp add: deleteLayer_def Let_def)
  have a: "addElementToLayer t e lm = (failure MsgLockedLayer, lm)"
    using tgt locked by (simp add: addElementToLayer_def)
  have len: "length (remove_at k ?ls) = length (layers lm) - 1"
    using klt by (simp add: length_remove_at)
  show ?thesis
    using g len by (simp add: m d a getLayer_def failure_def)
qed

subsection \<open>The example manager, evaluated\<close>

lemma generateId_layer_1:
  "generateId ''layer'' Map.empty = (''layer-1'', [''layer'' \<mapsto> 1])"
  by (simp add: generateId_def js_increment_def counter_falsy_def counter_value_def string_of_int_def string_of_nat_one_digit digit_char_def Let_def)

lemma generateId_layer_2:
  "generateId ''layer'' [''layer'' \<mapsto> 1] = (''layer-2'', [''layer'' \<mapsto> 2])"
  by (simp add: generateId_def js_increment_def counter_falsy_def counter_value_def string_of_int_def string_of_nat_one_digit digit_char_def Let_def)

lemma generateId_layer_3:
  "generateId ''layer'' [''layer'' \<mapsto> 2] = (''layer-3'', [''layer'' \<mapsto> 3])"
  by (simp add: generateId_def js_increment_def counter_falsy_def counter_value_def string_of_int_def string_of_nat_one_digit digit_char_def Let_def)

lemma new_LayerManager_eq:
  "new_LayerManager Map.empty =
     (\<lparr>layers = [plain_layer ''layer-1'' ''Layer 1'' False []], activeLayerId = Some ''layer-1''\<rparr>,
      [''layer'' \<mapsto> 1])"
  by (simp add: new_LayerManager_def createLayer_def generateId_layer_1 plain_layer_def)

lemma example_manager_eq:
  "example_manager =
     \<lparr>layers = [plain_layer ''layer-1'' ''Layer 1'' True [],
                plain_layer ''layer-2'' ''L2'' False [''rect-1''],
                plain_layer ''layer-3'' ''Layer 3'' False []],
      activeLayerId = Some ''layer-1''\<rparr>"
  by (simp add: example_manager_def example_ops_def new_LayerManager_eq createLayer_def
      generateId_layer_2 generateId_layer_3 plain_layer_def addElementToLayer_def setLayerLock_def
      getLayer_def string_of_nat_one_digit digit_char_def Let_def)

theorem last_layer_protected_witness:
  "length (layers (fst (new_LayerManager Map.empty))) = 1 \<and>
   \<not> success (fst (deleteLayer ''layer-1'' (fst (new_LayerManager Map.empty)))) \<and>
   snd (deleteLayer ''layer-1'' (fst (new_LayerManager Map.empty))) = fst (new_LayerManager Map.empty) \<and>
   message (fst (deleteLayer ''layer-1'' (fst (new_LayerManager Map.empty)))) = Some MsgLastLayer \<and>
   layers (fst (run_ops [DeleteLayer ''layer-1'', CreateLayer None None, DeleteLayer ''layer-1'', DeleteLayer ''layer-2'']
                  (new_LayerManager Map.empty))) \<noteq> []"
proof -
  have one: "length (layers (fst (new_LayerManager Map.empty))) = 1"
    by (simp add: new_LayerManager_eq)
  have found: "getLayer (fst (new_LayerManager Map.empty)) ''layer-1'' \<noteq> None"
    by (simp add: new_LayerManager_eq getLayer_def plain_layer_def)
  show ?thesis
    using last_layer_protected [of "fst (new_LayerManager Map.empty)" "''layer-1''"
        "[DeleteLayer ''layer-1'', CreateLayer None None, DeleteLayer ''layer-1'', DeleteLayer ''layer-2'']" Map.empty]
      one found
    by blast
qed

lemma example_manager_distinct: "membership_distinct example_manager"
  by (simp add: membership_distinct_def example_manager_eq plain_layer_def)

lemma example_move:
  "addElementToLayer ''layer-3'' ''rect-1'' example_manager =
     (\<lparr>success = True, layerId = Some ''layer-3'', message = Some (MsgElementAdded ''Layer 3'')\<rparr>,
      \<lparr>layers = [plain_layer ''layer-1'' ''Layer 1'' True [],
                 plain_layer ''layer-2'' ''L2'' False [],
                 plain_layer ''layer-3'' ''Layer 3'' False [''rect-1'']],
       activeLayerId = Some ''layer-1''\<rparr>)"
  by (simp add: addElementToLayer_def example_manager_eq plain_layer_def getLayer_def Let_def)

theorem single_layer_membership_witness:
  "membership_distinct example_manager \<and>
   membership_distinct (add_all [(''layer-1'', ''rect-1''), (''layer-3'', ''rect-1''), (''layer-3'', ''circle-1'')] example_manager) \<and>
   length (holders (add_all [(''layer-1'', ''rect-1''), (''layer-3'', ''rect-1''), (''layer-3'', ''circle-1'')] example_manager) ''rect-1'') \<le> 1 \<and>
   success (fst (addElementToLayer ''layer-3'' ''rect-1'' example_manager)) \<and>
   map layer_id (holders (snd (addElementToLayer ''layer-3'' ''rect-1'' example_manager)) ''rect-1'') = [''layer-3'']"
proof -
  have ok: "success (fst (addElementToLayer ''layer-3'' ''rect-1'' example_manager))"
    by (simp add: example_move)
  show ?thesis
    using single_layer_membership [OF example_manager_distinct,
        of "[(''layer-1'', ''rect-1''), (''layer-3'', ''rect-1''), (''layer-3'', ''circle-1'')]"
           "''rect-1''" "''layer-3''" "''rect-1''"]
      ok example_manager_distinct
    by blast
qed

theorem merge_ignores_target_lock_witness:
  "getLayer example_manager ''layer-2'' = Some (plain_layer ''layer-2'' ''L2'' False [''rect-1'']) \<and>
   getLayer example_manager ''layer-1'' = Some (plain_layer ''layer-1'' ''Layer 1'' True []) \<and>
   ''layer-2'' \<noteq> ''layer-1'' \<and>
   layer_locked (plain_layer ''layer-1'' ''Layer 1'' True []) \<and>
   success (fst (mergeLayers ''layer-2'' ''layer-1'' example_manager)) \<and>
   getLayer (snd (mergeLayers ''layer-2'' ''layer-1'' example_manager)) ''layer-1'' =
     Some (plain_layer ''layer-1'' ''Layer 1'' True [''rect-1'']) \<and>
   length (layers (snd (mergeLayers ''layer-2'' ''layer-1'' example_manager))) = 2 \<and>
   \<not> success (fst (addElementToLayer ''layer-1'' ''circle-1'' example_manager)) \<and>
   snd (addElementToLayer ''layer-1'' ''circle-1'' example_manager) = example_manager"
proof -
  have pre: "getLayer example_manager ''layer-2'' = Some (plain_layer ''layer-2'' ''L2'' False [''rect-1''])"
    "getLayer example_manager ''layer-1'' = Some (plain_layer ''layer-1'' ''Layer 1'' True [])"
    "''layer-2'' \<noteq> ''layer-1''"
    "layer_locked (plain_layer ''layer-1'' ''Layer 1'' True [])"
    by (simp_all add: example_manager_eq getLayer_def plain_layer_def)
  have l: "length (layers example_manager) - 1 = 2"
    by (simp add: example_manager_eq)
  have p: "(plain_layer ''layer-1'' ''Layer 1'' True [])\<lparr>layer_elements :=
       layer_elements (plain_layer ''layer-1'' ''Layer 1'' True []) @
       layer_elements (plain_layer ''layer-2'' ''L2'' False [''rect-1''])\<rparr> =
     plain_layer ''layer-1'' ''Layer 1'' True [''rect-1'']"
    by (simp add: plain_layer_def)
  show ?thesis
    using merge_ignores_target_lock [OF pre, of "''circle-1''"] pre
    by (simp only: l p) simp
qed

section \<open>Properties of the element model\<close>

subsection \<open>Identifiers of a clone\<close>

lemma generateId_group_2:
  "generateId ''group'' [''group'' \<mapsto> 1] = (''group-2'', [''group'' \<mapsto> 2])"
  by (simp add: generateId_def js_increment_def counter_falsy_def counter_value_def string_of_int_def string_of_nat_one_digit digit_char_def Let_def)

lemma the_path_created:
  "createPath ''M10 10 L90 90 Z'' (no_options\<lparr>opt_id := Some ''path-1''\<rparr>) Map.empty = (the_path, Map.empty)"
  by (simp add: createPath_def id_or_generate_def the_path_def)

lemma the_group_created:
  "createGroup [the_path] no_options Map.empty = (the_group, [''group'' \<mapsto> 1])"
  by (simp add: createGroup_def id_or_generate_def no_options_def generateId_fresh_table the_group_def)

lemma the_path_cloned:
  "fst (generateId ''path'' c) = ''path-1'' \<Longrightarrow>
   cloneElement the_path None c = (Inr the_path, snd (generateId ''path'' c))"
  by (simp add: the_path_def clone_prefix_def id_or_generate_def factory_attributes_def case_prod_beta)

text \<open>
  Claim C9 says that the identifiers of a clone occur nowhere in its source. The
  code does not keep that. On a new table of counters, \<open>createPath\<close> with the
  identifier \<open>path-1\<close> given by the caller leaves the counter of \<open>path\<close>
  untouched, and \<open>cloneElement\<close> of that path then generates \<open>path-1\<close>
  again: the clone is equal to its source, identifier included. The group that
  \<open>createGroup\<close> makes of the path is \<open>group-1\<close>; its clone is \<open>group-2\<close>
  and holds a child \<open>path-1\<close>, the identifier of the source's child.
\<close>

theorem clone_keeps_source_identifier:
  "createPath ''M10 10 L90 90 Z'' (no_options\<lparr>opt_id := Some ''path-1''\<rparr>) Map.empty = (the_path, Map.empty) \<and>
   element_id the_path = Some ''path-1'' \<and>
   fst (cloneElement the_path None Map.empty) = Inr the_path \<and>
   createGroup [the_path] no_options Map.empty = (the_group, [''group'' \<mapsto> 1]) \<and>
   collectAllIds [the_group] = Inr [Some ''group-1'', Some ''path-1''] \<and>
   fst (cloneElement the_group None [''group'' \<mapsto> 1]) = Inr the_group_clone \<and>
   collectAllIds [the_group_clone] = Inr [Some ''group-2'', Some ''path-1'']"
proof -
  have a: "element_id the_path = Some ''path-1''"
    by (simp add: the_path_def element_id_def factory_attributes_def)
  have b: "fst (cloneElement the_path None Map.empty) = Inr the_path"
    by (simp add: the_path_cloned generateId_fresh_table)
  have c: "collectAllIds [the_group] = Inr [Some ''group-1'', Some ''path-1'']"
    "collectAllIds [the_group_clone] = Inr [Some ''group-2'', Some ''path-1'']"
    by (simp_all add: the_group_def the_group_clone_def the_path_def factory_attributes_def)
  have "fst (generateId ''path'' [''group'' \<mapsto> 2]) = ''path-1''"
    by (simp add: generateId_def js_increment_def counter_falsy_def counter_value_def string_of_int_def string_of_nat_one_digit digit_char_def Let_def)
  then have p: "fst (cloneElement the_path None [''group'' \<mapsto> 2]) = Inr the_path"
    by (simp add: the_path_cloned)
  have d: "fst (cloneElement the_group None [''group'' \<mapsto> 1]) = Inr the_group_clone"
    using p
    by (simp add: the_group_def the_group_clone_def clone_prefix_def id_or_generate_def generateId_group_2
        factory_attributes_def case_prod_beta split: sum.splits)
  show ?thesis
    using a b c d by (simp add: the_path_created the_group_created)
qed

subsection \<open>Updating an element\<close>

lemma element_id_updateElement:
  "element_id (updateElement e p) = spread_key (element_id e) (p_id (p_attributes p))"
  by (simp add: updateElement_def element_id_def spread_attributes_def)

lemma element_at_Suc: "element_at (el # els) (Suc k # rest) = element_at els (k # rest)"
  by (cases rest) simp_all

lemma element_at_next:
  "path \<noteq> [] \<Longrightarrow> element_at (el # els) (next_place path) = element_at els path"
  by (cases path) (simp_all add: next_place_def element_at_Suc)

lemma element_at_inside:
  "path \<noteq> [] \<Longrightarrow> element_children el = Some children \<Longrightarrow>
   element_at (el # els) (0 # path) = element_at children path"
  by (cases path) simp_all

lemma findElement_place:
  "findElement els i = Inr (Some e) \<Longrightarrow>
   \<exists>path. path \<noteq> [] \<and> findPlace els i = Some path \<and> element_at els path = Some e \<and>
          element_at (assignElement els i p) path = Some (updateElement e p) \<and>
          element_id e = Some i"
proof (induction els i arbitrary: e rule: findElement.induct)
  case (1 i)
  then show ?case by simp
next
  case (2 t a f ch els i)
  show ?case
  proof (cases "attr_id a = Some i")
    case True
    then have "e = SVGElement t a f ch" using "2.prems" by simp
    then show ?thesis using True by (intro exI [of _ "[0]"]) (simp add: element_id_def)
  next
    case False
    show ?thesis
    proof (cases "t = Some TypeG")
      case g: True
      then obtain children where ch: "ch = Some children"
        using "2.prems" False by (cases ch) simp_all
      show ?thesis
      proof (cases "findElement children i")
        case (Inl err)
        then show ?thesis using "2.prems" False g ch by simp
      next
        case (Inr r)
        show ?thesis
        proof (cases r)
          case None
          then have fe: "findElement els i = Inr (Some e)"
            using "2.prems" False g ch Inr by simp
          have "\<exists>path. path \<noteq> [] \<and> findPlace els i = Some path \<and> element_at els path = Some e \<and>
              element_at (assignElement els i p) path = Some (updateElement e p) \<and> element_id e = Some i"
            using Inr None by (intro "2.IH"(2) [OF False g ch _ _ fe]) simp_all
          then obtain path where path: "path \<noteq> []" "findPlace els i = Some path"
            "element_at els path = Some e"
            "element_at (assignElement els i p) path = Some (updateElement e p)" "element_id e = Some i"
            by blast
          have np: "next_place path \<noteq> []" using path(1) by (cases path) (simp_all add: next_place_def)
          show ?thesis
            using False g ch Inr None path np
            by (intro exI [of _ "next_place path"]) (simp add: element_at_next)
        next
          case (Some found)
          then have fe: "findElement children i = Inr (Some e)"
            using "2.prems" False g ch Inr by simp
          have "\<exists>path. path \<noteq> [] \<and> findPlace children i = Some path \<and> element_at children path = Some e \<and>
              element_at (assignElement children i p) path = Some (updateElement e p) \<and> element_id e = Some i"
            by (rule "2.IH"(1) [OF False g ch fe])
          then obtain path where path: "path \<noteq> []" "findPlace children i = Some path"
            "element_at children path = Some e"
            "element_at (assignElement children i p) path = Some (updateElement e p)" "element_id e = Some i"
            by blast
          show ?thesis
            using False g ch Inr Some path fe
            by (intro exI [of _ "0 # path"]) (simp add: element_at_inside)
        qed
      qed
    next
      case ng: False
      then have fe: "findElement els i = Inr (Some e)"
        using "2.prems" False by simp
      have "\<exists>path. path \<noteq> [] \<and> findPlace els i = Some path \<and> element_at els path = Some e \<and>
          element_at (assignElement els i p) path = Some (updateElement e p) \<and> element_id e = Some i"
        by (rule "2.IH"(3) [OF False ng fe])
      then obtain path where path: "path \<noteq> []" "findPlace els i = Some path"
        "element_at els path = Some e"
        "element_at (assignElement els i p) path = Some (updateElement e p)" "element_id e = Some i"
        by blast
      have np: "next_place path \<noteq> []" using path(1) by (cases path) (simp_all add: next_place_def)
      show ?thesis
        using False ng path np
        by (intro exI [of _ "next_place path"]) (simp add: element_at_next)
    qed
  qed
qed

lemma findElement_assignElement:
  "findElement els i = Inr (Some e) \<Longrightarrow> element_id (updateElement e p) = Some i \<Longrightarrow>
   findElement (assignElement els i p) i = Inr (Some (updateElement e p))"
proof (induction els i arbitrary: e rule: findElement.induct)
  case (1 i)
  then show ?case by simp
next
  case (2 t a f ch els i)
  show ?case
  proof (cases "attr_id a = Some i")
    case True
    then have e: "e = SVGElement t a f ch" using "2.prems"(1) by simp
    obtain t' a' f' ch' where u: "updateElement (SVGElement t a f ch) p = SVGElement t' a' f' ch'"
      by (cases "updateElement (SVGElement t a f ch) p") blast
    have "attr_id a' = Some i" using "2.prems"(2) e u by (simp add: element_id_def)
    then have "findElement (SVGElement t' a' f' ch' # els) i = Inr (Some (SVGElement t' a' f' ch'))"
      by simp
    moreover have "assignElement (SVGElement t a f ch # els) i p = SVGElement t' a' f' ch' # els"
      using True u by simp
    ultimately show ?thesis using e u by simp
  next
    case False
    show ?thesis
    proof (cases "t = Some TypeG")
      case g: True
      then obtain children where ch: "ch = Some children"
        using "2.prems"(1) False by (cases ch) simp_all
      show ?thesis
      proof (cases "findElement children i")
        case (Inl err)
        then show ?thesis using "2.prems"(1) False g ch by simp
      next
        case (Inr r)
        show ?thesis
        proof (cases r)
          case None
          then have fe: "findElement els i = Inr (Some e)"
            using "2.prems"(1) False g ch Inr by simp
          have "findElement (assignElement els i p) i = Inr (Some (updateElement e p))"
            using Inr None by (intro "2.IH"(2) [OF False g ch _ _ fe "2.prems"(2)]) simp_all
          then show ?thesis using False g ch Inr None by simp
        next
          case (Some found)
          then have fe: "findElement children i = Inr (Some e)"
            using "2.prems"(1) False g ch Inr by simp
          have "findElement (assignElement children i p) i = Inr (Some (updateElement e p))"
            by (rule "2.IH"(1) [OF False g ch fe "2.prems"(2)])
          then show ?thesis using False g ch Inr Some by simp
        qed
      qed
    next
      case ng: False
      then have fe: "findElement els i = Inr (Some e)"
        using "2.prems"(1) False by simp
      have "findElement (assignElement els i p) i = Inr (Some (updateElement e p))"
        by (rule "2.IH"(3) [OF False ng fe "2.prems"(2)])
      then show ?thesis using False ng by simp
    qed
  qed
qed

text \<open>
  Claim C8, as amended. \<open>updateElement(e, p)\<close> is the spread of \<open>p\<close> over
  \<open>e\<close>, for every partial-changes object \<open>p\<close> (one that replaces \<open>type\<close>
  or \<open>children\<close> included): its result has the identifier that \<open>p\<close> carries
  when \<open>p\<close> has an \<open>id\<close> key, and the identifier of \<open>e\<close> when it has not.
  The document manager's \<open>updateElement(id, p)\<close> throws what the search throws,
  and returns false and changes nothing when no element has the identifier. When
  the search finds an element, the call returns true and the place of that
  element holds the spread of \<open>p\<close> over it afterwards; its identifier is then
  the one \<open>p\<close> carries, and still \<open>id\<close> when \<open>p\<close> has no \<open>id\<close> key; when
  \<open>p\<close> has no \<open>id\<close> key or carries \<open>id\<close> itself, a search for \<open>id\<close>
  returns the updated element.
\<close>

theorem update_identifier:
  "element_id (updateElement e p) = (case p_id (p_attributes p) of None \<Rightarrow> element_id e | Some j \<Rightarrow> j) \<and>
   (getElementById m i = Inl err \<longrightarrow> SVGDocumentManager_updateElement i p m = (Inl err, m)) \<and>
   (getElementById m i = Inr None \<longrightarrow> SVGDocumentManager_updateElement i p m = (Inr False, m)) \<and>
   (getElementById m i = Inr (Some e') \<longrightarrow>
      fst (SVGDocumentManager_updateElement i p m) = Inr True \<and>
      (\<exists>path. findPlace (doc_elements (document m)) i = Some path \<and>
         element_at (doc_elements (document m)) path = Some e' \<and>
         element_at (doc_elements (document (snd (SVGDocumentManager_updateElement i p m)))) path
           = Some (updateElement e' p)) \<and>
      element_id (updateElement e' p) = (case p_id (p_attributes p) of None \<Rightarrow> Some i | Some j \<Rightarrow> j) \<and>
      (p_id (p_attributes p) = None \<or> p_id (p_attributes p) = Some (Some i) \<longrightarrow>
         getElementById (snd (SVGDocumentManager_updateElement i p m)) i = Inr (Some (updateElement e' p))))"
proof -
  have a: "element_id (updateElement x p) = (case p_id (p_attributes p) of None \<Rightarrow> element_id x | Some j \<Rightarrow> j)"
    for x
    by (simp add: element_id_updateElement spread_key_def)
  have b: "getElementById m i = Inl err \<longrightarrow> SVGDocumentManager_updateElement i p m = (Inl err, m)"
    by (simp add: SVGDocumentManager_updateElement_def)
  have c: "getElementById m i = Inr None \<longrightarrow> SVGDocumentManager_updateElement i p m = (Inr False, m)"
    by (simp add: SVGDocumentManager_updateElement_def)
  have d: "fst (SVGDocumentManager_updateElement i p m) = Inr True \<and>
      (\<exists>path. findPlace (doc_elements (document m)) i = Some path \<and>
         element_at (doc_elements (document m)) path = Some e' \<and>
         element_at (doc_elements (document (snd (SVGDocumentManager_updateElement i p m)))) path
           = Some (updateElement e' p)) \<and>
      element_id (updateElement e' p) = (case p_id (p_attributes p) of None \<Rightarrow> Some i | Some j \<Rightarrow> j) \<and>
      (p_id (p_attributes p) = None \<or> p_id (p_attributes p) = Some (Some i) \<longrightarrow>
         getElementById (snd (SVGDocumentManager_updateElement i p m)) i = Inr (Some (updateElement e' p)))"
    if f: "getElementById m i = Inr (Some e')"
  proof -
    have fe: "findElement (doc_elements (document m)) i = Inr (Some e')"
      using f by (simp add: getElementById_def)
    have s: "snd (SVGDocumentManager_updateElement i p m) =
        emit \<lparr>ev_type = ElementUpdated, ev_elementId = Some i\<rparr>
          (m\<lparr>document := (document m)\<lparr>doc_elements := assignElement (doc_elements (document m)) i p\<rparr>,
             isDirty := True\<rparr>)"
      using f by (simp add: SVGDocumentManager_updateElement_def)
    have els: "doc_elements (document (snd (SVGDocumentManager_updateElement i p m)))
        = assignElement (doc_elements (document m)) i p"
      by (simp add: s emit_def)
    have r: "fst (SVGDocumentManager_updateElement i p m) = Inr True"
      using f by (simp add: SVGDocumentManager_updateElement_def)
    obtain path where path: "findPlace (doc_elements (document m)) i = Some path"
      "element_at (doc_elements (document m)) path = Some e'"
      "element_at (assignElement (doc_elements (document m)) i p) path = Some (updateElement e' p)"
      "element_id e' = Some i"
      using findElement_place [OF fe, of p] by blast
    have u: "element_id (updateElement e' p) = (case p_id (p_attributes p) of None \<Rightarrow> Some i | Some j \<Rightarrow> j)"
      by (simp add: a path(4) split: option.splits)
    have same: "getElementById (snd (SVGDocumentManager_updateElement i p m)) i = Inr (Some (updateElement e' p))"
      if k: "p_id (p_attributes p) = None \<or> p_id (p_attributes p) = Some (Some i)"
    proof -
      have ui: "element_id (updateElement e' p) = Some i"
        using k u by auto
      have "findElement (assignElement (doc_elements (document m)) i p) i = Inr (Some (updateElement e' p))"
        by (rule findElement_assignElement [OF fe ui])
      then show ?thesis by (simp add: getElementById_def els)
    qed
    show ?thesis
      using r path(1,2,3) u same unfolding els by blast
  qed
  show ?thesis using a [of e] b c d by blast
qed

lemma scenario_rect_document: "document (fst scenario_rect) = document_rect"
  by (simp add: document_rect_def SVGDocumentManager_toJSON_def)

lemma the_rect_id: "element_id the_rect = Some ''rect-1''"
  by (simp add: the_rect_def element_id_def factory_attributes_def)

lemma the_rect_attr_id: "attr_id (attributes_of the_rect) = Some ''rect-1''"
  using the_rect_id by (simp add: element_id_def)

lemma findElement_hit: "element_id el = Some i \<Longrightarrow> findElement (el # els) i = Inr (Some el)"
  by (cases el) (simp add: element_id_def)

lemma scenario_rect_lookup: "getElementById (fst scenario_rect) ''rect-1'' = Inr (Some the_rect)"
  by (simp add: getElementById_def scenario_rect_document document_rect_eq findElement_hit the_rect_id)

lemma scenario_rect_no_circle: "getElementById (fst scenario_rect) ''circle-1'' = Inr None"
  by (simp add: getElementById_def scenario_rect_document document_rect_eq the_rect_def factory_attributes_def)

lemma retyped_manager_elements:
  "doc_elements (document retyped_manager) = [updateElement the_rect retyped]"
  using scenario_rect_lookup
  by (simp add: retyped_manager_def SVGDocumentManager_updateElement_def emit_def
      scenario_rect_document document_rect_eq the_rect_def factory_attributes_def)

lemma retyped_manager_throws: "getElementById retyped_manager ''circle-1'' = Inl TypeError"
  by (simp add: getElementById_def retyped_manager_elements updateElement_def retyped_def no_changes_def
      spread_key_def spread_attributes_def the_rect_def factory_attributes_def)

theorem update_identifier_witness:
  "getElementById (fst scenario_rect) ''rect-1'' = Inr (Some the_rect) \<and>
   fst (SVGDocumentManager_updateElement ''rect-1'' regrouped (fst scenario_rect)) = Inr True \<and>
   element_id (updateElement the_rect regrouped) = Some ''rect-1'' \<and>
   element_type (updateElement the_rect regrouped) = Some TypeG \<and>
   element_children (updateElement the_rect regrouped) = Some [the_circle] \<and>
   getElementById (snd (SVGDocumentManager_updateElement ''rect-1'' regrouped (fst scenario_rect))) ''rect-1''
     = Inr (Some (updateElement the_rect regrouped)) \<and>
   getElementById (fst scenario_rect) ''circle-1'' = Inr None \<and>
   SVGDocumentManager_updateElement ''circle-1'' regrouped (fst scenario_rect) = (Inr False, fst scenario_rect) \<and>
   getElementById retyped_manager ''circle-1'' = Inl TypeError \<and>
   SVGDocumentManager_updateElement ''circle-1'' regrouped retyped_manager = (Inl TypeError, retyped_manager)"
proof -
  have n: "p_id (p_attributes regrouped) = None"
    by (simp add: regrouped_def no_changes_def)
  have t: "element_type (updateElement the_rect regrouped) = Some TypeG"
    "element_children (updateElement the_rect regrouped) = Some [the_circle]"
    by (simp_all add: updateElement_def regrouped_def no_changes_def spread_key_def)
  show ?thesis
    using update_identifier [of the_rect regrouped "fst scenario_rect" "''rect-1''" TypeError the_rect]
      update_identifier [of the_rect regrouped "fst scenario_rect" "''circle-1''" TypeError the_rect]
      update_identifier [of the_rect regrouped retyped_manager "''circle-1''" TypeError the_rect]
      scenario_rect_lookup scenario_rect_no_circle retyped_manager_throws n t
    by (simp add: the_rect_id)
qed

text \<open>
  A partial-changes object with an \<open>id\<close> key changes the identifier, in the
  element model and in the document: after \<open>updateElement('rect-1', { id: 'rect-2' })\<close>
  the document holds \<open>rect-2\<close> and nothing under \<open>rect-1\<close>.
\<close>

theorem update_overwrites_identifier_counterexample:
  "element_id the_rect = Some ''rect-1'' \<and>
   element_id (updateElement the_rect renamed) = Some ''rect-2'' \<and>
   fst (SVGDocumentManager_updateElement ''rect-1'' renamed (fst scenario_rect)) = Inr True \<and>
   collectAllIds (doc_elements (document (fst scenario_rect))) = Inr [Some ''rect-1''] \<and>
   collectAllIds (doc_elements (document (snd
     (SVGDocumentManager_updateElement ''rect-1'' renamed (fst scenario_rect))))) = Inr [Some ''rect-2''] \<and>
   getElementById (snd (SVGDocumentManager_updateElement ''rect-1'' renamed (fst scenario_rect))) ''rect-1''
     = Inr None"
proof -
  have a: "element_id (updateElement the_rect renamed) = Some ''rect-2''"
    by (simp add: element_id_updateElement spread_key_def renamed_def no_changes_def)
  have u: "updateElement the_rect renamed =
      SVGElement (Some TypeRect) ((attributes_of the_rect)\<lparr>attr_id := Some ''rect-2''\<rparr>)
        (fields_of the_rect) None"
    by (simp add: updateElement_def renamed_def no_changes_def spread_key_def spread_attributes_def
        the_rect_def factory_attributes_def)
  have b: "assignElement [the_rect] ''rect-1'' renamed = [updateElement the_rect renamed]"
    by (simp add: the_rect_def factory_attributes_def)
  have c: "collectAllIds [the_rect] = Inr [Some ''rect-1'']"
    by (simp add: the_rect_def factory_attributes_def)
  have d: "collectAllIds [updateElement the_rect renamed] = Inr [Some ''rect-2'']"
    "findElement [updateElement the_rect renamed] ''rect-1'' = Inr None"
    by (simp_all add: u)
  show ?thesis
    using a b c d scenario_rect_lookup
    by (simp add: SVGDocumentManager_updateElement_def the_rect_id emit_def scenario_rect_document
        document_rect_eq getElementById_def)
qed

section \<open>Properties of the document manager\<close>

subsection \<open>Creating a canvas\<close>

text \<open>
  Claim C2, as amended. \<open>create\<close> checks nothing and has no failure result: for
  every width and height, zero and negative ones included, it replaces the live
  document by an empty one of exactly that width and height, forgets the file
  path, clears the dirty flag, announces \<open>canvas-changed\<close> and resets the
  identifier counters.
\<close>

theorem create_replaces_document:
  "cfg_width (doc_config (document (fst (create parseViewBox width height options c m)))) = width \<and>
   cfg_height (doc_config (document (fst (create parseViewBox width height options c m)))) = height \<and>
   doc_elements (document (fst (create parseViewBox width height options c m))) = [] \<and>
   doc_defs (document (fst (create parseViewBox width height options c m))) = emptyDefs \<and>
   filePath (fst (create parseViewBox width height options c m)) = None \<and>
   \<not> isDirty (fst (create parseViewBox width height options c m)) \<and>
   emitted (fst (create parseViewBox width height options c m))
     = emitted m @ [\<lparr>ev_type = CanvasChanged, ev_elementId = None\<rparr>] \<and>
   snd (create parseViewBox width height options c m) = Map.empty"
  by (simp add: create_def createEmptyDocument_def resetCounters_def spread_config_def spread_key_def
      emit_def Let_def)

theorem create_replaces_document_witness:
  "cfg_width (doc_config (document (fst (create (\<lambda>s. None) (- 5) 0 no_create_options (snd scenario_rect) (fst scenario_rect))))) = - 5 \<and>
   cfg_height (doc_config (document (fst (create (\<lambda>s. None) (- 5) 0 no_create_options (snd scenario_rect) (fst scenario_rect))))) = 0 \<and>
   snd (create (\<lambda>s. None) (- 5) 0 no_create_options (snd scenario_rect) (fst scenario_rect)) = Map.empty"
  using create_replaces_document [of "\<lambda>s. None" "- 5" 0 no_create_options "snd scenario_rect" "fst scenario_rect"]
  by simp

text \<open>
  On the document that holds the rectangle, \<open>create(0, 600)\<close> installs an empty
  document of width 0.
\<close>

theorem create_accepts_zero_width_counterexample:
  "doc_elements (document (fst scenario_rect)) = [the_rect] \<and>
   cfg_width (doc_config (document (fst scenario_rect))) = 800 \<and>
   cfg_width (doc_config (document (fst (create (\<lambda>s. None) 0 600 no_create_options (snd scenario_rect) (fst scenario_rect))))) = 0 \<and>
   doc_elements (document (fst (create (\<lambda>s. None) 0 600 no_create_options (snd scenario_rect) (fst scenario_rect)))) = []"
  by (simp add: scenario_rect_document document_rect_eq defaultConfig_def)
     (simp add: create_def createEmptyDocument_def resetCounters_def spread_config_def spread_key_def
      emit_def Let_def)

end
